theory Spec2Isabelle
  imports Complex_Main "HOL-Library.AList"
begin

section \<open>JavaScript numbers, timestamps and readings\<close>

text \<open>
  Speeds, directions and the other measurements are JavaScript numbers. The normaliser
  (\<open>getHistoricalData\<close>) stores \<open>value || 0\<close> in every field, so a reading never holds
  \<open>NaN\<close> or \<open>undefined\<close>; the fields are modelled as reals. On such a number
  \<open>x || 0\<close> yields \<open>0\<close> when \<open>x\<close> is falsy (zero) and \<open>x\<close> otherwise.
\<close>

definition or_zero :: "real \<Rightarrow> real" where
  "or_zero x = (if x = 0 then 0 else x)"

text \<open>
  A timestamp is an ISO-8601 string in the source and is only ever read through
  \<open>moment(...)\<close>; it is modelled by the instant it denotes, in milliseconds since the
  epoch. \<open>moment(b).diff(moment(a), "hours", true)\<close> is the difference of the two
  instants divided by \<open>36e5\<close>, not truncated.
\<close>

type_synonym instant = int

definition diff_hours :: "instant \<Rightarrow> instant \<Rightarrow> real" where
  "diff_hours b a = real_of_int (b - a) / 3600000"

record reading =
  timestamp :: instant
  windSpeed :: real
  windSpeedKmh :: real
  windSpeed100m :: real
  windSpeed100mKmh :: real
  windDirection :: real
  windDirection100m :: real
  windGusts :: real
  windGustsKmh :: real
  temperature :: real
  humidity :: real
  pressure :: real

record wind_farm =
  name :: string
  lat :: real
  lon :: real
  region :: string
  capacity :: real
  operator :: string

section \<open>StrongWindPeriodsService: the strong-wind period detector\<close>

record strong_wind_periods_service =
  strongWindThreshold :: real
  minimumDurationHours :: real
  windFarms :: "wind_farm list"

text \<open>The period under construction (\<open>currentPeriod\<close>) and the period once closed.\<close>

record current_period =
  startTime :: instant
  startWindSpeed :: real
  maxWindSpeed :: real
  readings :: "reading list"
  windFarm :: string

record period = current_period +
  endTime :: instant
  durationHours :: real
  avgWindSpeed :: real

text \<open>
  Closing sets \<open>endTime\<close>, \<open>durationHours\<close> and \<open>avgWindSpeed\<close> on the current period;
  the average is the \<open>reduce\<close> over the collected readings divided by their number.
\<close>

definition close_period :: "current_period \<Rightarrow> instant \<Rightarrow> period" where
  "close_period cp e =
     \<lparr> startTime = startTime cp,
       startWindSpeed = startWindSpeed cp,
       maxWindSpeed = maxWindSpeed cp,
       readings = readings cp,
       windFarm = windFarm cp,
       endTime = e,
       durationHours = diff_hours e (startTime cp),
       avgWindSpeed =
         foldl (\<lambda>sum r. sum + or_zero (windSpeed100mKmh r)) 0 (readings cp)
           / real (length (readings cp)) \<rparr>"

text \<open>One iteration of the \<open>for\<close> loop over \<open>data\<close>, on the pair \<open>(periods, currentPeriod)\<close>.\<close>

fun scan_reading ::
  "strong_wind_periods_service \<Rightarrow> wind_farm \<Rightarrow> reading
     \<Rightarrow> period list \<times> current_period option \<Rightarrow> period list \<times> current_period option" where
  "scan_reading this farm r (periods, currentPeriod) =
     (let windSpeed100m = or_zero (windSpeed100mKmh r);
          isStrongWind = strongWindThreshold this \<le> windSpeed100m
      in case currentPeriod of
           None \<Rightarrow>
             if isStrongWind
             then (periods,
                   Some \<lparr> startTime = timestamp r,
                          startWindSpeed = windSpeed100m,
                          maxWindSpeed = windSpeed100m,
                          readings = [r],
                          windFarm = name farm \<rparr>)
             else (periods, None)
         | Some cp \<Rightarrow>
             if isStrongWind
             then (periods,
                   Some (cp \<lparr> readings := readings cp @ [r],
                              maxWindSpeed := max (maxWindSpeed cp) windSpeed100m \<rparr>))
             else
               (let closed = close_period cp (timestamp r)
                in (if minimumDurationHours this \<le> durationHours closed
                    then periods @ [closed] else periods,
                    None)))"

text \<open>
  After the loop, a period still open is closed at \<open>data[data.length - 1].timestamp\<close>
  and pushed under the same duration test. A period can only be open when \<open>data\<close> is
  not empty.
\<close>

fun close_at_end ::
  "strong_wind_periods_service \<Rightarrow> reading list
     \<Rightarrow> period list \<times> current_period option \<Rightarrow> period list" where
  "close_at_end this data (periods, None) = periods"
| "close_at_end this data (periods, Some cp) =
     (let closed = close_period cp (timestamp (last data))
      in if minimumDurationHours this \<le> durationHours closed
         then periods @ [closed] else periods)"

definition findStrongWindPeriods ::
  "strong_wind_periods_service \<Rightarrow> reading list \<Rightarrow> wind_farm \<Rightarrow> period list" where
  "findStrongWindPeriods this data farm =
     close_at_end this data (fold (scan_reading this farm) data ([], None))"

section \<open>WindAnalysisService: the single-location detector\<close>

record wind_analysis_service =
  strongWindThreshold_wa :: real
  extremeWindThreshold :: real

text \<open>
  \<open>Math.max(...xs)\<close> of a non-empty array is its greatest element. Every call in the
  modelled code spreads a non-empty array (the readings of a period, the periods of a
  date); the value \<open>-Infinity\<close> of the empty spread is not a real and is not modelled.
\<close>

definition Math_max :: "real list \<Rightarrow> real" where
  "Math_max xs = Max (set xs)"

text \<open>
  The remainder operator \<open>%\<close> on integral numbers truncates towards zero: the result
  has the sign of the dividend.
\<close>

definition js_rem :: "int \<Rightarrow> int \<Rightarrow> int" where
  "js_rem a b = sgn a * (\<bar>a\<bar> mod \<bar>b\<bar>)"

text \<open>
  \<open>moment.duration(ms)\<close> read through \<open>Math.floor(asHours())\<close>,
  \<open>Math.floor(asMinutes()) % 60\<close>, \<open>Math.floor(asMinutes())\<close> and \<open>asMilliseconds()\<close>.
\<close>

record duration =
  hours :: int
  minutes :: int
  totalMinutes :: int
  totalMilliseconds :: int

definition duration_of :: "int \<Rightarrow> duration" where
  "duration_of ms =
     \<lparr> hours = ms div 3600000,
       minutes = js_rem (ms div 60000) 60,
       totalMinutes = ms div 60000,
       totalMilliseconds = ms \<rparr>"

record current_period_wa =
  start :: instant
  startWindSpeed_wa :: real
  startWindSpeed100m :: real
  startWindGusts :: real
  readings_wa :: "reading list"

text \<open>
  \<open>endWindSpeed\<close> is only set when a reading below the threshold closes the period; it
  stays \<open>undefined\<close> (\<open>None\<close>) on the period closed at the end of the data.
\<close>

record period_wa = current_period_wa +
  end_wa :: instant
  endWindSpeed :: "real option"
  duration :: duration
  maxWindSpeed_wa :: real
  maxWindSpeed100m :: real
  maxWindGusts :: real
  avgWindSpeed_wa :: real

definition close_period_wa :: "current_period_wa \<Rightarrow> instant \<Rightarrow> real option \<Rightarrow> period_wa" where
  "close_period_wa cp e ews =
     \<lparr> start = start cp,
       startWindSpeed_wa = startWindSpeed_wa cp,
       startWindSpeed100m = startWindSpeed100m cp,
       startWindGusts = startWindGusts cp,
       readings_wa = readings_wa cp,
       end_wa = e,
       endWindSpeed = ews,
       duration = duration_of (e - start cp),
       maxWindSpeed_wa = Math_max (map windSpeedKmh (readings_wa cp)),
       maxWindSpeed100m = Math_max (map (\<lambda>r. or_zero (windSpeed100mKmh r)) (readings_wa cp)),
       maxWindGusts = Math_max (map (\<lambda>r. or_zero (windGustsKmh r)) (readings_wa cp)),
       avgWindSpeed_wa =
         foldl (\<lambda>sum r. sum + windSpeedKmh r) 0 (readings_wa cp)
           / real (length (readings_wa cp)) \<rparr>"

fun scan_reading_wa ::
  "wind_analysis_service \<Rightarrow> reading
     \<Rightarrow> period_wa list \<times> current_period_wa option
     \<Rightarrow> period_wa list \<times> current_period_wa option" where
  "scan_reading_wa this r (periods, currentPeriod) =
     (let isStrongWind = strongWindThreshold_wa this \<le> windSpeedKmh r
      in case currentPeriod of
           None \<Rightarrow>
             if isStrongWind
             then (periods,
                   Some \<lparr> start = timestamp r,
                          startWindSpeed_wa = windSpeedKmh r,
                          startWindSpeed100m = or_zero (windSpeed100mKmh r),
                          startWindGusts = or_zero (windGustsKmh r),
                          readings_wa = [r] \<rparr>)
             else (periods, None)
         | Some cp \<Rightarrow>
             if isStrongWind
             then (periods, Some (cp \<lparr> readings_wa := readings_wa cp @ [r] \<rparr>))
             else (periods @ [close_period_wa cp (timestamp r) (Some (windSpeedKmh r))],
                   None))"

fun close_at_end_wa ::
  "reading list \<Rightarrow> period_wa list \<times> current_period_wa option \<Rightarrow> period_wa list" where
  "close_at_end_wa data (periods, None) = periods"
| "close_at_end_wa data (periods, Some cp) =
     periods @ [close_period_wa cp (timestamp (last data)) None]"

definition findStrongWindPeriods_wa ::
  "wind_analysis_service \<Rightarrow> reading list \<Rightarrow> period_wa list" where
  "findStrongWindPeriods_wa this data =
     close_at_end_wa data (fold (scan_reading_wa this) data ([], None))"

section \<open>The worked example\<close>

text \<open>
  Hourly readings from 00:00 to 23:00 (of the day that starts at instant 0), 70 km/h at
  hub height from 02:00 to 07:00 and 50 km/h at every other hour.
\<close>

definition example_reading :: "int \<Rightarrow> real \<Rightarrow> real \<Rightarrow> reading" where
  "example_reading h v10 v100 =
     \<lparr> timestamp = h * 3600000, windSpeed = v10, windSpeedKmh = v10,
       windSpeed100m = v100, windSpeed100mKmh = v100, windDirection = 0,
       windDirection100m = 0, windGusts = 0, windGustsKmh = 0,
       temperature = 0, humidity = 0, pressure = 0 \<rparr>"

definition example_data :: "reading list" where
  "example_data =
     map (\<lambda>h. example_reading h 0 (if 2 \<le> h \<and> h \<le> 7 then 70 else 50))
       [0, 1, 2, 3, 4, 5, 6, 7, 8, 9, 10, 11, 12, 13, 14, 15, 16, 17, 18, 19, 20, 21, 22, 23]"

definition example_period :: period where
  "example_period =
     \<lparr> startTime = 2 * 3600000, startWindSpeed = 70, maxWindSpeed = 70,
       readings = map (\<lambda>h. example_reading h 0 70) [2, 3, 4, 5, 6, 7],
       windFarm = ''West Wind'',
       endTime = 8 * 3600000, durationHours = 6, avgWindSpeed = 70 \<rparr>"

text \<open>A short series for the single-location detector, which tests the speed at 10 m.\<close>

definition example_data_wa :: "reading list" where
  "example_data_wa =
     [example_reading 0 65 80, example_reading 1 40 50, example_reading 2 61 70]"

definition example_period_wa_1 :: period_wa where
  "example_period_wa_1 =
     \<lparr> start = 0, startWindSpeed_wa = 65, startWindSpeed100m = 80, startWindGusts = 0,
       readings_wa = [example_reading 0 65 80],
       end_wa = 3600000, endWindSpeed = Some 40,
       duration = \<lparr> hours = 1, minutes = 0, totalMinutes = 60, totalMilliseconds = 3600000 \<rparr>,
       maxWindSpeed_wa = 65, maxWindSpeed100m = 80, maxWindGusts = 0, avgWindSpeed_wa = 65 \<rparr>"

definition example_period_wa_2 :: period_wa where
  "example_period_wa_2 =
     \<lparr> start = 7200000, startWindSpeed_wa = 61, startWindSpeed100m = 70, startWindGusts = 0,
       readings_wa = [example_reading 2 61 70],
       end_wa = 7200000, endWindSpeed = None,
       duration = \<lparr> hours = 0, minutes = 0, totalMinutes = 0, totalMilliseconds = 0 \<rparr>,
       maxWindSpeed_wa = 61, maxWindSpeed100m = 70, maxWindGusts = 0, avgWindSpeed_wa = 61 \<rparr>"

definition example_service_wa :: wind_analysis_service where
  "example_service_wa = \<lparr> strongWindThreshold_wa = 60, extremeWindThreshold = 100 \<rparr>"


definition example_farm :: wind_farm where
  "example_farm =
     \<lparr> name = ''West Wind'', lat = 0, lon = 0, region = ''Wellington'',
       capacity = 0, operator = ''Meridian'' \<rparr>"

definition example_service :: "real \<Rightarrow> strong_wind_periods_service" where
  "example_service m =
     \<lparr> strongWindThreshold = 60, minimumDurationHours = m, windFarms = [example_farm] \<rparr>"

section \<open>Wind direction buckets\<close>

text \<open>
  \<open>getWindDirection\<close> has the same text in \<open>WindAnalysisService\<close> and in
  \<open>MultiLocationAnalysisService\<close>. \<open>Math.round\<close> rounds to the nearest integer, a tie
  going up. The division by \<open>22.5\<close> is taken in the reals. An index outside the array
  reads \<open>undefined\<close>.
\<close>

definition directions :: "string list" where
  "directions =
     [''N'', ''NNE'', ''NE'', ''ENE'', ''E'', ''ESE'', ''SE'', ''SSE'',
      ''S'', ''SSW'', ''SW'', ''WSW'', ''W'', ''WNW'', ''NW'', ''NNW'']"

definition Math_round :: "real \<Rightarrow> int" where
  "Math_round x = \<lfloor>x + 1 / 2\<rfloor>"

definition getWindDirection :: "real \<Rightarrow> string option" where
  "getWindDirection degrees =
     (let index = js_rem (Math_round (degrees / 22.5)) 16
      in if 0 \<le> index \<and> index < int (length directions)
         then Some (directions ! nat index) else None)"

section \<open>WindAnalysisService: hourly, daily and directional distributions\<close>

text \<open>
  An exception thrown by the code is a value of \<open>js_error\<close>; a function that can throw
  returns \<open>js_error + 'a\<close>, \<open>Inl\<close> being the exception.
\<close>

datatype js_error = TypeError | RangeError | FetchError

text \<open>
  The accumulator objects (\<open>hourlyStats\<close>, \<open>dailyStats\<close>, \<open>directions\<close>) are objects used
  as dictionaries: lists of key and value in insertion order. Writing a key that is
  present replaces its value in place, writing a new key appends it (\<open>AList.update\<close>).
  \<open>forEach\<close> with a callback that can throw stops at the first exception.
\<close>

fun for_each :: "('a \<Rightarrow> 's \<Rightarrow> js_error + 's) \<Rightarrow> 'a list \<Rightarrow> 's \<Rightarrow> js_error + 's" where
  "for_each f [] s = Inr s"
| "for_each f (x # xs) s = (case f x s of Inl e \<Rightarrow> Inl e | Inr s' \<Rightarrow> for_each f xs s')"

subsection \<open>calculateHourlyDistribution\<close>







subsection \<open>calculateDailyDistribution\<close>








subsection \<open>calculateWindRose\<close>







section \<open>WindDataService: the reading normaliser\<close>

text \<open>
  The hourly block of an Open-Meteo response, as the code reads it: \<open>time()\<close>,
  \<open>timeEnd()\<close> and \<open>interval()\<close> in seconds, and the value arrays of the variables in
  request order. An array element is a number or \<open>NaN\<close> (\<open>None\<close>).
\<close>

record hourly_response =
  time :: int
  timeEnd :: int
  interval :: int
  variables :: "real option list list"

text \<open>
  \<open>array[index] || 0\<close>: an index past the end reads \<open>undefined\<close>, and \<open>undefined\<close>,
  \<open>NaN\<close> and \<open>0\<close> all yield \<open>0\<close>.
\<close>

definition value_or_zero :: "real option list \<Rightarrow> nat \<Rightarrow> real" where
  "value_or_zero array index =
     (if index < length array
      then (case array ! index of None \<Rightarrow> 0 | Some v \<Rightarrow> or_zero v)
      else 0)"

text \<open>
  The instant of slot \<open>i\<close>, in milliseconds. \<open>toISOString\<close> throws a \<open>RangeError\<close> on a
  date outside the range of \<open>Date\<close>, which is \<open>8.64e15\<close> milliseconds either side of the
  epoch.
\<close>

definition slot_time :: "hourly_response \<Rightarrow> int \<Rightarrow> nat \<Rightarrow> instant" where
  "slot_time hourly utcOffsetSeconds i =
     (time hourly + int i * interval hourly + utcOffsetSeconds) * 1000"

definition valid_date :: "instant \<Rightarrow> bool" where
  "valid_date ms = (\<bar>ms\<bar> \<le> 8640000000000000)"

definition format_reading :: "hourly_response \<Rightarrow> int \<Rightarrow> nat \<Rightarrow> reading" where
  "format_reading hourly utcOffsetSeconds index =
     \<lparr> timestamp = slot_time hourly utcOffsetSeconds index,
       windSpeed = value_or_zero (variables hourly ! 0) index,
       windSpeedKmh = value_or_zero (variables hourly ! 0) index,
       windSpeed100m = value_or_zero (variables hourly ! 1) index,
       windSpeed100mKmh = value_or_zero (variables hourly ! 1) index,
       windDirection = value_or_zero (variables hourly ! 2) index,
       windDirection100m = value_or_zero (variables hourly ! 3) index,
       windGusts = value_or_zero (variables hourly ! 4) index,
       windGustsKmh = value_or_zero (variables hourly ! 4) index,
       temperature = value_or_zero (variables hourly ! 5) index,
       humidity = value_or_zero (variables hourly ! 6) index,
       pressure = value_or_zero (variables hourly ! 7) index \<rparr>"

text \<open>
  The body of the \<open>try\<close> block after the fetch. \<open>Array(n)\<close> throws a \<open>RangeError\<close>
  unless \<open>n = (timeEnd - time) / interval\<close> is an integer from \<open>0\<close> to \<open>2^32 - 1\<close> (a zero
  interval gives an infinite or undefined quotient); \<open>variables(k)\<close> is \<open>null\<close> for a
  variable the response does not hold, and calling \<open>valuesArray\<close> on it throws a
  \<open>TypeError\<close>; a variable that is held is taken to have its array. Nothing compares
  the lengths of the arrays, and nothing inspects the order of the timestamps.
\<close>

definition format_hourly :: "hourly_response \<Rightarrow> int \<Rightarrow> js_error + reading list" where
  "format_hourly hourly utcOffsetSeconds =
     (if interval hourly = 0 \<or> (timeEnd hourly - time hourly) mod interval hourly \<noteq> 0
      then Inl RangeError
      else
        (let n = (timeEnd hourly - time hourly) div interval hourly
         in if n < 0 \<or> 4294967296 \<le> n then Inl RangeError
            else if length (variables hourly) < 8 then Inl TypeError
            else if list_ex (\<lambda>i. \<not> valid_date (slot_time hourly utcOffsetSeconds i)) [0..<nat n]
            then Inl RangeError
            else Inr (map (format_reading hourly utcOffsetSeconds) [0..<nat n])))"

text \<open>
  \<open>getHistoricalData\<close>: the argument is the outcome of the fetch (the response's hourly
  block and UTC offset, or the exception of a failed request). The \<open>catch\<close> logs the
  error and returns the empty array, so the function always returns normally.
\<close>

definition getHistoricalData ::
  "js_error + hourly_response \<times> int \<Rightarrow> js_error + reading list" where
  "getHistoricalData fetched =
     (case (case fetched of
              Inl e \<Rightarrow> Inl e
            | Inr (hourly, utcOffsetSeconds) \<Rightarrow> format_hourly hourly utcOffsetSeconds) of
        Inl error \<Rightarrow> Inr []
      | Inr formattedData \<Rightarrow> Inr formattedData)"

text \<open>Two responses: arrays of different lengths, and a negative interval.\<close>

definition ragged_response :: hourly_response where
  "ragged_response =
     \<lparr> time = 0, timeEnd = 7200, interval = 3600,
       variables = [ [Some 10], [Some 20, Some 21], [Some 90, Some 95], [Some 91, Some 96],
                    [Some 30, Some 31], [Some 15, Some 16], [Some 50, Some 51],
                    [Some 1000, Some 1001]] \<rparr>"

definition backward_response :: hourly_response where
  "backward_response =
     \<lparr> time = 7200, timeEnd = 0, interval = - 3600,
       variables = [ [Some 10, Some 11], [Some 20, Some 21], [Some 90, Some 95],
                    [Some 91, Some 96], [Some 30, Some 31], [Some 15, Some 16],
                    [Some 50, Some 51], [Some 1000, Some 1001]] \<rparr>"

section \<open>TimePeriodsAnalysisService: averages over given time windows\<close>

record time_period =
  start_tp :: instant
  end_tp :: instant

text \<open>
  \<open>getWindDataForPeriod\<close> formats the response with the same text as
  \<open>getHistoricalData\<close>, then keeps the readings with
  \<open>moment(reading.timestamp).isBetween(start, end, null, "[]")\<close>, both ends included.
  \<open>fetchWeatherApi\<close> stands for the request, made for the coordinates and for the
  calendar dates of the two ends (\<open>format_date\<close> is \<open>moment(...).format("YYYY-MM-DD")\<close>).
  The \<open>catch\<close> returns the empty array.
\<close>

definition getWindDataForPeriod ::
  "(real \<Rightarrow> real \<Rightarrow> string \<Rightarrow> string \<Rightarrow> js_error + hourly_response \<times> int)
     \<Rightarrow> (instant \<Rightarrow> string) \<Rightarrow> real \<Rightarrow> real \<Rightarrow> instant \<Rightarrow> instant
     \<Rightarrow> js_error + reading list" where
  "getWindDataForPeriod fetchWeatherApi format_date lat' lon' startTime' endTime' =
     (let startDate = format_date startTime';
          endDate = format_date endTime'
      in case (case fetchWeatherApi lat' lon' startDate endDate of
                 Inl e \<Rightarrow> Inl e
               | Inr (hourly, utcOffsetSeconds) \<Rightarrow>
                   (case format_hourly hourly utcOffsetSeconds of
                      Inl e \<Rightarrow> Inl e
                    | Inr allData \<Rightarrow>
                        Inr (filter (\<lambda>reading. startTime' \<le> timestamp reading
                                       \<and> timestamp reading \<le> endTime') allData))) of
           Inl error \<Rightarrow> Inr []
         | Inr windData \<Rightarrow> Inr windData)"

text \<open>
  One iteration of the loop over \<open>timePeriods\<close>: \<open>null\<close> (\<open>None\<close>) when no reading is in
  the window or when the call throws, the mean of \<open>windSpeedKmh\<close> otherwise.
\<close>

definition average_for_period ::
  "(real \<Rightarrow> real \<Rightarrow> string \<Rightarrow> string \<Rightarrow> js_error + hourly_response \<times> int)
     \<Rightarrow> (instant \<Rightarrow> string) \<Rightarrow> wind_farm \<Rightarrow> time_period
     \<Rightarrow> real option list \<Rightarrow> real option list" where
  "average_for_period fetchWeatherApi format_date farm period averageSpeeds =
     (case getWindDataForPeriod fetchWeatherApi format_date (lat farm) (lon farm)
             (start_tp period) (end_tp period) of
        Inl error \<Rightarrow> averageSpeeds @ [None]
      | Inr windData \<Rightarrow>
          if length windData = 0 then averageSpeeds @ [None]
          else
            (let totalSpeed = foldl (\<lambda>sum reading. sum + windSpeedKmh reading) 0 windData;
                 averageSpeed = totalSpeed / real (length windData)
             in averageSpeeds @ [Some averageSpeed]))"

record farm_averages =
  name_fa :: string
  averageSpeeds :: "real option list"

definition analyzeWindFarmForTimePeriods ::
  "(real \<Rightarrow> real \<Rightarrow> string \<Rightarrow> string \<Rightarrow> js_error + hourly_response \<times> int)
     \<Rightarrow> (instant \<Rightarrow> string) \<Rightarrow> wind_farm \<Rightarrow> time_period list \<Rightarrow> farm_averages" where
  "analyzeWindFarmForTimePeriods fetchWeatherApi format_date farm timePeriods =
     \<lparr> name_fa = name farm,
       averageSpeeds = fold (average_for_period fetchWeatherApi format_date farm) timePeriods [] \<rparr>"

section \<open>StrongWindPeriodsService: the multi-site aggregation\<close>

text \<open>
  The entries of \<open>nzStrongWindPeriods\<close> are built by an object literal with a spread,
  and \<open>findNZStrongWindDays\<close> reads a property of a property of them. Here an object is
  its list of own properties in insertion order, and a property holds one of the values
  below. Reading a property that is absent gives \<open>undefined\<close>.
\<close>

datatype js_value =
  Undefined
| Num real
| Str string
| Time instant
| Readings "reading list"
| Farm wind_farm

type_synonym js_object = "(string \<times> js_value) list"

definition get_property :: "js_object \<Rightarrow> string \<Rightarrow> js_value" where
  "get_property obj k = (case map_of obj k of None \<Rightarrow> Undefined | Some v \<Rightarrow> v)"

text \<open>The own properties of a period returned by \<open>findStrongWindPeriods\<close>, in the order
  in which the detector sets them.\<close>

definition period_object :: "period \<Rightarrow> js_object" where
  "period_object p =
     [(''startTime'', Time (startTime p)),
      (''startWindSpeed'', Num (startWindSpeed p)),
      (''maxWindSpeed'', Num (maxWindSpeed p)),
      (''readings'', Readings (readings p)),
      (''windFarm'', Str (windFarm p)),
      (''endTime'', Time (endTime p)),
      (''durationHours'', Num (durationHours p)),
      (''avgWindSpeed'', Num (avgWindSpeed p))]"

text \<open>
  \<open>{ ...obj, ...source }\<close>: the properties of \<open>source\<close> are copied in order onto the
  object built so far; a key already present keeps its place and takes the new value.
\<close>

definition spread :: "js_object \<Rightarrow> js_object \<Rightarrow> js_object" where
  "spread obj source = fold (\<lambda>(k, v) obj. AList.update k v obj) source obj"

text \<open>
  \<open>v.name\<close>: a \<open>TypeError\<close> on \<open>undefined\<close>, the name of a wind farm object, and
  \<open>undefined\<close> on a string, a number or an array, which have no such property.
\<close>

fun member_name :: "js_value \<Rightarrow> js_error + js_value" where
  "member_name Undefined = Inl TypeError"
| "member_name (Farm f) = Inr (Str (name f))"
| "member_name v = Inr Undefined"

text \<open>
  \<open>moment(p.startTime)\<close> of an entry. Every entry built by the aggregation holds its
  \<open>startTime\<close>; the other case does not arise and is given the instant \<open>0\<close>.
\<close>

definition startTime_of :: "js_object \<Rightarrow> instant" where
  "startTime_of obj = (case get_property obj ''startTime'' of Time t \<Rightarrow> t | _ \<Rightarrow> 0)"

record farm_analysis =
  windFarm_fa :: wind_farm
  periods_fa :: "period list"
  totalPeriods :: nat
  totalDuration :: real
  maxWindSpeed_fa :: real

text \<open>
  The body of the loop over \<open>this.windFarms\<close>. \<open>getWindData\<close> stands for the request of
  the farm's historical readings over the date range; when it throws, the \<open>catch\<close> logs
  and the loop goes on.
\<close>

fun analyze_farm ::
  "strong_wind_periods_service \<Rightarrow> (wind_farm \<Rightarrow> js_error + reading list) \<Rightarrow> wind_farm
     \<Rightarrow> farm_analysis list \<times> js_object list \<Rightarrow> farm_analysis list \<times> js_object list" where
  "analyze_farm this getWindData farm (windFarmAnalysis, nzStrongWindPeriods) =
     (case getWindData farm of
        Inl error \<Rightarrow> (windFarmAnalysis, nzStrongWindPeriods)
      | Inr historical \<Rightarrow>
          (let periods = findStrongWindPeriods this historical farm
           in if length periods > 0
              then (windFarmAnalysis @
                      [\<lparr> windFarm_fa = farm,
                         periods_fa = periods,
                         totalPeriods = length periods,
                         totalDuration = foldl (\<lambda>sum p. sum + durationHours p) 0 periods,
                         maxWindSpeed_fa = Math_max (map maxWindSpeed periods) \<rparr>],
                    nzStrongWindPeriods @
                      map (\<lambda>period. spread [(''windFarm'', Farm farm)] (period_object period))
                        periods)
              else (windFarmAnalysis, nzStrongWindPeriods)))"

text \<open>\<open>format_date\<close> is \<open>moment(...).format("YYYY-MM-DD")\<close>.\<close>

definition groupPeriodsByDate ::
  "(instant \<Rightarrow> string) \<Rightarrow> js_object list \<Rightarrow> (string \<times> js_object list) list" where
  "groupPeriodsByDate format_date periods =
     fold (\<lambda>period grouped.
             let date = format_date (startTime_of period)
             in case map_of grouped date of
                  None \<Rightarrow> AList.update date [period] grouped
                | Some ps \<Rightarrow> AList.update date (ps @ [period]) grouped)
       periods []"

text \<open>A \<open>Set\<close> built from an array keeps the first occurrence of each value, in order.\<close>

definition new_Set :: "'a list \<Rightarrow> 'a list" where
  "new_Set xs = fold (\<lambda>x s. if x \<in> set s then s else s @ [x]) xs []"

fun map_throwing :: "('a \<Rightarrow> js_error + 'b) \<Rightarrow> 'a list \<Rightarrow> js_error + 'b list" where
  "map_throwing f [] = Inr []"
| "map_throwing f (x # xs) =
     (case f x of
        Inl e \<Rightarrow> Inl e
      | Inr y \<Rightarrow> (case map_throwing f xs of Inl e \<Rightarrow> Inl e | Inr ys \<Rightarrow> Inr (y # ys)))"

text \<open>
  A day record. Its numeric summaries \<open>totalDuration\<close> and \<open>maxWindSpeed\<close> are left out
  of the model.
\<close>

record strong_wind_day =
  date :: string
  windFarms_day :: "js_value list"
  windFarmCount :: nat
  periods_day :: "js_object list"

definition day_of_entry ::
  "string \<times> js_object list \<Rightarrow> strong_wind_day list \<Rightarrow> js_error + strong_wind_day list" where
  "day_of_entry entry nzStrongWindDays =
     (case entry of (date', periods) \<Rightarrow>
        (case map_throwing (\<lambda>p. member_name (get_property p ''windFarm'')) periods of
           Inl e \<Rightarrow> Inl e
         | Inr names \<Rightarrow>
             (let uniqueWindFarms = new_Set names
              in if length uniqueWindFarms \<ge> 1
                 then Inr (nzStrongWindDays @
                             [\<lparr> date = date',
                                windFarms_day = uniqueWindFarms,
                                windFarmCount = length uniqueWindFarms,
                                periods_day = periods \<rparr>])
                 else Inr nzStrongWindDays)))"

text \<open>The final \<open>sort\<close> is stable and orders by \<open>windFarmCount\<close>, largest first.\<close>

definition findNZStrongWindDays ::
  "(string \<times> js_object list) list \<Rightarrow> js_error + strong_wind_day list" where
  "findNZStrongWindDays periodsByDate =
     (case for_each day_of_entry periodsByDate [] of
        Inl e \<Rightarrow> Inl e
      | Inr nzStrongWindDays \<Rightarrow>
          Inr (sort_key (\<lambda>d. - int (windFarmCount d)) nzStrongWindDays))"

text \<open>
  The result of \<open>analyzeStrongWindPeriods\<close>, without its \<open>summary\<close>. An exception of
  \<open>findNZStrongWindDays\<close> is logged and thrown again.
\<close>

record analysis =
  windFarmAnalysis_of :: "farm_analysis list"
  nzStrongWindPeriods_of :: "js_object list"
  periodsByDate_of :: "(string \<times> js_object list) list"
  nzStrongWindDays_of :: "strong_wind_day list"

definition analyzeStrongWindPeriods ::
  "strong_wind_periods_service \<Rightarrow> (wind_farm \<Rightarrow> js_error + reading list)
     \<Rightarrow> (instant \<Rightarrow> string) \<Rightarrow> js_error + analysis" where
  "analyzeStrongWindPeriods this getWindData format_date =
     (case fold (analyze_farm this getWindData) (windFarms this) ([], []) of
        (windFarmAnalysis, pushed) \<Rightarrow>
          (let nzStrongWindPeriods = sort_key startTime_of pushed;
               periodsByDate = groupPeriodsByDate format_date nzStrongWindPeriods
           in case findNZStrongWindDays periodsByDate of
                Inl error \<Rightarrow> Inl error
              | Inr nzStrongWindDays \<Rightarrow>
                  Inr \<lparr> windFarmAnalysis_of = windFarmAnalysis,
                        nzStrongWindPeriods_of = nzStrongWindPeriods,
                        periodsByDate_of = periodsByDate,
                        nzStrongWindDays_of = nzStrongWindDays \<rparr>))"

text \<open>Two farms for the examples, with strong wind on the same day.\<close>

definition second_farm :: wind_farm where
  "second_farm =
     \<lparr> name = ''Te Apiti'', lat = 1, lon = 1, region = ''Manawatu'',
       capacity = 0, operator = ''Meridian'' \<rparr>"

definition two_farm_service :: strong_wind_periods_service where
  "two_farm_service =
     \<lparr> strongWindThreshold = 60, minimumDurationHours = 6,
       windFarms = [example_farm, second_farm] \<rparr>"

section \<open>Auxiliary definitions for the proofs\<close>

text \<open>
  \<open>runs q acc xs\<close> lists the maximal runs of readings satisfying \<open>q\<close> in \<open>acc @ xs\<close>,
  where \<open>acc\<close> is the run in progress, each with the reading that ends it (\<open>None\<close> for a
  run that reaches the end of the data). Both detectors are shown below to emit their
  periods from exactly these runs.
\<close>

fun runs :: "('r \<Rightarrow> bool) \<Rightarrow> 'r list \<Rightarrow> 'r list \<Rightarrow> ('r list \<times> 'r option) list" where
  "runs q acc [] = (if acc = [] then [] else [(acc, None)])"
| "runs q acc (x # xs) =
     (if q x then runs q (acc @ [x]) xs
      else if acc = [] then runs q [] xs
      else (acc, Some x) # runs q [] xs)"

definition is_strong :: "strong_wind_periods_service \<Rightarrow> reading \<Rightarrow> bool" where
  "is_strong this r = (strongWindThreshold this \<le> or_zero (windSpeed100mKmh r))"

text \<open>The current period after the loop has collected the run \<open>run\<close>.\<close>

definition open_period :: "wind_farm \<Rightarrow> reading list \<Rightarrow> current_period" where
  "open_period farm run =
     \<lparr> startTime = timestamp (hd run),
       startWindSpeed = or_zero (windSpeed100mKmh (hd run)),
       maxWindSpeed = Max (set (map (\<lambda>r. or_zero (windSpeed100mKmh r)) run)),
       readings = run,
       windFarm = name farm \<rparr>"

fun emit ::
  "strong_wind_periods_service \<Rightarrow> wind_farm \<Rightarrow> reading list
     \<Rightarrow> reading list \<times> reading option \<Rightarrow> period list" where
  "emit this farm d (run, nxt) =
     (let closed = close_period (open_period farm run)
                     (case nxt of None \<Rightarrow> timestamp (last d) | Some x \<Rightarrow> timestamp x)
      in if minimumDurationHours this \<le> durationHours closed then [closed] else [])"

definition is_strong_wa :: "wind_analysis_service \<Rightarrow> reading \<Rightarrow> bool" where
  "is_strong_wa this r = (strongWindThreshold_wa this \<le> windSpeedKmh r)"

definition open_period_wa :: "reading list \<Rightarrow> current_period_wa" where
  "open_period_wa run =
     \<lparr> start = timestamp (hd run),
       startWindSpeed_wa = windSpeedKmh (hd run),
       startWindSpeed100m = or_zero (windSpeed100mKmh (hd run)),
       startWindGusts = or_zero (windGustsKmh (hd run)),
       readings_wa = run \<rparr>"

fun emit_wa :: "reading list \<Rightarrow> reading list \<times> reading option \<Rightarrow> period_wa" where
  "emit_wa d (run, nxt) =
     close_period_wa (open_period_wa run)
       (case nxt of None \<Rightarrow> timestamp (last d) | Some x \<Rightarrow> timestamp x)
       (map_option windSpeedKmh nxt)"

text \<open>The entries that the loop over the farms pushes onto \<open>nzStrongWindPeriods\<close>.\<close>

definition pushed_by ::
  "strong_wind_periods_service \<Rightarrow> (wind_farm \<Rightarrow> js_error + reading list) \<Rightarrow> wind_farm list
     \<Rightarrow> js_object set" where
  "pushed_by this getWindData farms =
     {spread [(''windFarm'', Farm f)] (period_object p) | f data p.
        f \<in> set farms \<and> getWindData f = Inr data
        \<and> p \<in> set (findStrongWindPeriods this data f)}"

section \<open>Properties of the run structure and of the two scans\<close>

lemma runs_sound:
  "(run, nxt) \<in> set (runs q acc xs) \<Longrightarrow> \<forall>r\<in>set acc. q r \<Longrightarrow>
   \<exists>pre post. acc @ xs = pre @ run @ post \<and> run \<noteq> [] \<and> (\<forall>r\<in>set run. q r)
     \<and> (nxt = None \<longrightarrow> post = [])
     \<and> (\<forall>x. nxt = Some x \<longrightarrow> (\<exists>rest. post = x # rest) \<and> \<not> q x)
     \<and> (pre = [] \<or> \<not> q (last pre))"
proof (induction xs arbitrary: acc)
  case Nil
  then show ?case by (auto split: if_splits)
next
  case (Cons x xs)
  show ?case
  proof (cases "q x")
    case True
    with Cons.prems have "(run, nxt) \<in> set (runs q (acc @ [x]) xs)" "\<forall>r\<in>set (acc @ [x]). q r"
      by auto
    from Cons.IH[OF this] show ?thesis by auto
  next
    case False
    note nq = this
    show ?thesis
    proof (cases "(run, nxt) \<in> set (runs q [] xs)")
      case True
      from Cons.IH[OF this] obtain pre post where
        h: "xs = pre @ run @ post" "run \<noteq> []" "\<forall>r\<in>set run. q r" "nxt = None \<longrightarrow> post = []"
           "\<forall>x. nxt = Some x \<longrightarrow> (\<exists>rest. post = x # rest) \<and> \<not> q x" "pre = [] \<or> \<not> q (last pre)"
        by auto
      have "acc @ x # xs = (acc @ x # pre) @ run @ post" using h(1) by simp
      moreover have "\<not> q (last (acc @ x # pre))" using h(6) nq by auto
      ultimately show ?thesis using h(2-5) by blast
    next
      case False
      with Cons.prems nq have e: "acc \<noteq> []" "run = acc" "nxt = Some x"
        by (auto split: if_splits)
      have "acc @ x # xs = [] @ run @ (x # xs)" using e by simp
      then show ?thesis using e nq Cons.prems(2) by blast
    qed
  qed
qed

lemma runs_all: "\<forall>r\<in>set run. q r \<Longrightarrow> runs q acc (run @ ys) = runs q (acc @ run) ys"
  by (induction run arbitrary: acc) auto

lemma runs_split: "\<not> q x \<Longrightarrow> runs q acc (xs @ x # ys) = runs q acc (xs @ [x]) @ runs q [] ys"
  by (induction xs arbitrary: acc) auto

lemma runs_complete:
  assumes "data = pre @ run @ post" "run \<noteq> []" "\<forall>r\<in>set run. q r"
    "pre = [] \<or> \<not> q (last pre)" "post = [] \<or> \<not> q (hd post)"
  shows "(run, case post of [] \<Rightarrow> None | x # _ \<Rightarrow> Some x) \<in> set (runs q [] data)"
proof -
  have tail: "(run, case post of [] \<Rightarrow> None | x # _ \<Rightarrow> Some x) \<in> set (runs q [] (run @ post))"
  proof (cases post)
    case Nil
    then show ?thesis using assms(2,3) runs_all[of run q "[]" "[]"] by simp
  next
    case (Cons x rest)
    then show ?thesis using assms(2,3,5) runs_all[of run q "[]" "x # rest"] by simp
  qed
  show ?thesis
  proof (cases "pre = []")
    case True
    then show ?thesis using tail assms(1) by simp
  next
    case False
    then obtain pre' y where p: "pre = pre' @ [y]" by (metis rev_exhaust)
    with assms(4) have "\<not> q y" by simp
    then have "runs q [] (pre' @ y # (run @ post)) = runs q [] (pre' @ [y]) @ runs q [] (run @ post)"
      by (rule runs_split)
    then show ?thesis using tail assms(1) p by simp
  qed
qed

lemma open_period_single:
  "open_period farm [r] =
     \<lparr> startTime = timestamp r, startWindSpeed = or_zero (windSpeed100mKmh r),
       maxWindSpeed = or_zero (windSpeed100mKmh r), readings = [r], windFarm = name farm \<rparr>"
  by (simp add: open_period_def)

lemma open_period_snoc:
  "acc \<noteq> [] \<Longrightarrow>
   (open_period farm acc) \<lparr> readings := readings (open_period farm acc) @ [r],
       maxWindSpeed := max (maxWindSpeed (open_period farm acc)) (or_zero (windSpeed100mKmh r)) \<rparr>
   = open_period farm (acc @ [r])"
  by (simp add: open_period_def max.commute)

lemma scan_runs:
  "close_at_end this d (fold (scan_reading this farm) xs
       (ps, if acc = [] then None else Some (open_period farm acc)))
   = ps @ concat (map (emit this farm d) (runs (is_strong this) acc xs))"
proof (induction xs arbitrary: ps acc)
  case Nil
  show ?case by (simp add: Let_def)
next
  case (Cons x xs)
  show ?case
  proof (cases "is_strong this x")
    case True
    then have s: "strongWindThreshold this \<le> or_zero (windSpeed100mKmh x)"
      by (simp add: is_strong_def)
    have "scan_reading this farm x (ps, if acc = [] then None else Some (open_period farm acc))
          = (ps, Some (open_period farm (acc @ [x])))"
      using s by (simp add: Let_def open_period_single open_period_snoc)
    then show ?thesis using True Cons.IH[of ps "acc @ [x]"] by simp
  next
    case False
    then have s: "\<not> strongWindThreshold this \<le> or_zero (windSpeed100mKmh x)"
      by (simp add: is_strong_def)
    show ?thesis
    proof (cases "acc = []")
      case True
      then show ?thesis using False s Cons.IH[of ps "[]"] by (simp add: Let_def)
    next
      case nonempty: False
      have "scan_reading this farm x (ps, if acc = [] then None else Some (open_period farm acc))
          = (ps @ emit this farm d (acc, Some x), None)"
        using s nonempty by (simp add: Let_def)
      then show ?thesis using False nonempty Cons.IH[of "ps @ emit this farm d (acc, Some x)" "[]"]
        by simp
    qed
  qed
qed

lemma findStrongWindPeriods_runs:
  "findStrongWindPeriods this data farm
     = concat (map (emit this farm data) (runs (is_strong this) [] data))"
  using scan_runs[of this data farm data "[]" "[]"] by (simp add: findStrongWindPeriods_def)

lemma open_period_wa_snoc:
  "acc \<noteq> [] \<Longrightarrow>
   (open_period_wa acc) \<lparr> readings_wa := readings_wa (open_period_wa acc) @ [r] \<rparr>
   = open_period_wa (acc @ [r])"
  by (simp add: open_period_wa_def)

lemma scan_runs_wa:
  "close_at_end_wa d (fold (scan_reading_wa this) xs
       (ps, if acc = [] then None else Some (open_period_wa acc)))
   = ps @ map (emit_wa d) (runs (is_strong_wa this) acc xs)"
proof (induction xs arbitrary: ps acc)
  case Nil
  show ?case by simp
next
  case (Cons x xs)
  show ?case
  proof (cases "is_strong_wa this x")
    case True
    then have s: "strongWindThreshold_wa this \<le> windSpeedKmh x"
      by (simp add: is_strong_wa_def)
    have "scan_reading_wa this x (ps, if acc = [] then None else Some (open_period_wa acc))
          = (ps, Some (open_period_wa (acc @ [x])))"
      using s by (simp add: open_period_wa_snoc) (simp add: open_period_wa_def)
    then show ?thesis using True Cons.IH[of ps "acc @ [x]"] by simp
  next
    case False
    then have s: "\<not> strongWindThreshold_wa this \<le> windSpeedKmh x"
      by (simp add: is_strong_wa_def)
    show ?thesis
    proof (cases "acc = []")
      case True
      then show ?thesis using False s Cons.IH[of ps "[]"] by simp
    next
      case nonempty: False
      have "scan_reading_wa this x (ps, if acc = [] then None else Some (open_period_wa acc))
          = (ps @ [emit_wa d (acc, Some x)], None)"
        using s nonempty by simp
      then show ?thesis using False nonempty Cons.IH[of "ps @ [emit_wa d (acc, Some x)]" "[]"]
        by simp
    qed
  qed
qed

lemma findStrongWindPeriods_wa_runs:
  "findStrongWindPeriods_wa this data = map (emit_wa data) (runs (is_strong_wa this) [] data)"
  using scan_runs_wa[of data this data "[]" "[]"] by (simp add: findStrongWindPeriods_wa_def)

subsection \<open>The detectors on the example data\<close>

lemmas example_defs =
  example_data_def example_service_def example_reading_def example_farm_def example_period_def
  example_data_wa_def example_service_wa_def example_period_wa_1_def example_period_wa_2_def

lemma example_periods:
  "findStrongWindPeriods (example_service 6) example_data example_farm = [example_period]"
  by (simp add: example_defs findStrongWindPeriods_def or_zero_def close_period_def diff_hours_def Let_def)

lemma example_periods_0:
  "findStrongWindPeriods (example_service 0) example_data example_farm = [example_period]"
  by (simp add: example_defs findStrongWindPeriods_def or_zero_def close_period_def diff_hours_def Let_def)

lemma example_periods_7:
  "findStrongWindPeriods (example_service 7) example_data example_farm = []"
  by (simp add: example_defs findStrongWindPeriods_def or_zero_def close_period_def diff_hours_def Let_def)

lemma example_periods_wa:
  "findStrongWindPeriods_wa example_service_wa example_data_wa
     = [example_period_wa_1, example_period_wa_2]"
  by (simp add: example_defs findStrongWindPeriods_wa_def or_zero_def close_period_wa_def
      duration_of_def js_rem_def Math_max_def Let_def)

lemma emit_readings: "p \<in> set (emit this farm d (run, nxt)) \<Longrightarrow> readings p = run"
  by (auto simp: Let_def close_period_def open_period_def split: if_splits)

lemma emit_wa_readings: "readings_wa (emit_wa d (run, nxt)) = run"
  by (simp add: close_period_wa_def open_period_wa_def)

text \<open>
  C1. Every period emitted by the strong-wind period detector holds a contiguous,
  non-empty stretch of the input whose readings all have tested speed \<open>\<ge>\<close> the threshold
  (the comparison is \<open>\<ge>\<close>), and the reading that follows the stretch in the input, if
  there is one, has tested speed \<open><\<close> the threshold. The tested speed is the speed at
  100 m for \<open>StrongWindPeriodsService\<close> and the speed at 10 m for
  \<open>WindAnalysisService\<close>.
\<close>

theorem detector_periods_qualify:
  "(p \<in> set (findStrongWindPeriods this data farm) \<longrightarrow>
      (\<exists>pre post. data = pre @ readings p @ post \<and> readings p \<noteq> []
         \<and> (\<forall>r\<in>set (readings p). strongWindThreshold this \<le> or_zero (windSpeed100mKmh r))
         \<and> (post \<noteq> [] \<longrightarrow> or_zero (windSpeed100mKmh (hd post)) < strongWindThreshold this)))
   \<and> (p' \<in> set (findStrongWindPeriods_wa this' data') \<longrightarrow>
      (\<exists>pre post. data' = pre @ readings_wa p' @ post \<and> readings_wa p' \<noteq> []
         \<and> (\<forall>r\<in>set (readings_wa p'). strongWindThreshold_wa this' \<le> windSpeedKmh r)
         \<and> (post \<noteq> [] \<longrightarrow> windSpeedKmh (hd post) < strongWindThreshold_wa this')))"
proof (intro conjI impI)
  assume "p \<in> set (findStrongWindPeriods this data farm)"
  then obtain run nxt where m: "(run, nxt) \<in> set (runs (is_strong this) [] data)"
    and e: "p \<in> set (emit this farm data (run, nxt))"
    unfolding findStrongWindPeriods_runs by auto
  from e have r: "readings p = run" by (rule emit_readings)
  from runs_sound[OF m] obtain pre post where
    h: "data = pre @ run @ post" "run \<noteq> []" "\<forall>r\<in>set run. is_strong this r"
       "nxt = None \<longrightarrow> post = []"
       "\<forall>x. nxt = Some x \<longrightarrow> (\<exists>rest. post = x # rest) \<and> \<not> is_strong this x"
    by auto
  have "post \<noteq> [] \<longrightarrow> \<not> is_strong this (hd post)"
    using h(4,5) by (cases nxt) auto
  then show "\<exists>pre post. data = pre @ readings p @ post \<and> readings p \<noteq> []
         \<and> (\<forall>r\<in>set (readings p). strongWindThreshold this \<le> or_zero (windSpeed100mKmh r))
         \<and> (post \<noteq> [] \<longrightarrow> or_zero (windSpeed100mKmh (hd post)) < strongWindThreshold this)"
    using h(1-3) r unfolding is_strong_def by (auto simp: not_le)
next
  assume "p' \<in> set (findStrongWindPeriods_wa this' data')"
  then obtain run nxt where m: "(run, nxt) \<in> set (runs (is_strong_wa this') [] data')"
    and e: "p' = emit_wa data' (run, nxt)"
    unfolding findStrongWindPeriods_wa_runs by auto
  from e have r: "readings_wa p' = run" by (simp only: emit_wa_readings)
  from runs_sound[OF m] obtain pre post where
    h: "data' = pre @ run @ post" "run \<noteq> []" "\<forall>r\<in>set run. is_strong_wa this' r"
       "nxt = None \<longrightarrow> post = []"
       "\<forall>x. nxt = Some x \<longrightarrow> (\<exists>rest. post = x # rest) \<and> \<not> is_strong_wa this' x"
    by auto
  have "post \<noteq> [] \<longrightarrow> \<not> is_strong_wa this' (hd post)"
    using h(4,5) by (cases nxt) auto
  then show "\<exists>pre post. data' = pre @ readings_wa p' @ post \<and> readings_wa p' \<noteq> []
         \<and> (\<forall>r\<in>set (readings_wa p'). strongWindThreshold_wa this' \<le> windSpeedKmh r)
         \<and> (post \<noteq> [] \<longrightarrow> windSpeedKmh (hd post) < strongWindThreshold_wa this')"
    using h(1-3) r unfolding is_strong_wa_def by (auto simp: not_le)
qed

theorem detector_periods_qualify_witness:
  "example_period \<in> set (findStrongWindPeriods (example_service 6) example_data example_farm)
   \<and> (\<exists>pre post. example_data = pre @ readings example_period @ post
         \<and> readings example_period \<noteq> []
         \<and> (\<forall>r\<in>set (readings example_period).
               strongWindThreshold (example_service 6) \<le> or_zero (windSpeed100mKmh r))
         \<and> (post \<noteq> [] \<longrightarrow>
               or_zero (windSpeed100mKmh (hd post)) < strongWindThreshold (example_service 6)))
   \<and> example_period_wa_1 \<in> set (findStrongWindPeriods_wa example_service_wa example_data_wa)
   \<and> (\<exists>pre post. example_data_wa = pre @ readings_wa example_period_wa_1 @ post
         \<and> readings_wa example_period_wa_1 \<noteq> []
         \<and> (\<forall>r\<in>set (readings_wa example_period_wa_1).
               strongWindThreshold_wa example_service_wa \<le> windSpeedKmh r)
         \<and> (post \<noteq> [] \<longrightarrow>
               windSpeedKmh (hd post) < strongWindThreshold_wa example_service_wa))"
proof -
  have m: "example_period \<in> set (findStrongWindPeriods (example_service 6) example_data example_farm)"
    by (simp add: example_periods)
  have m': "example_period_wa_1 \<in> set (findStrongWindPeriods_wa example_service_wa example_data_wa)"
    by (simp add: example_periods_wa)
  show ?thesis
    using m m' detector_periods_qualify [of example_period "example_service 6" example_data
        example_farm example_period_wa_1 example_service_wa example_data_wa]
    by blast
qed

text \<open>
  C2. On the hourly example (70 km/h at hub height from 02:00 through 07:00, 50 km/h at
  every other hour, threshold 60, \<open>minimumDurationHours = 6\<close>) the detector emits exactly
  one period: it starts at 02:00, ends at 08:00 (the first reading below the threshold),
  lasts 6.0 hours and has maximum speed 70.
\<close>

theorem example_one_period:
  "findStrongWindPeriods
     \<lparr> strongWindThreshold = 60, minimumDurationHours = 6, windFarms = [example_farm] \<rparr>
     example_data example_farm
   = [\<lparr> startTime = 2 * 3600000, startWindSpeed = 70, maxWindSpeed = 70,
        readings = map (\<lambda>h. example_reading h 0 70) [2, 3, 4, 5, 6, 7],
        windFarm = name example_farm,
        endTime = 8 * 3600000, durationHours = 6, avgWindSpeed = 70 \<rparr>]"
  using example_periods by (simp add: example_service_def example_period_def example_farm_def)

subsection \<open>Runs that reach the end of the data, and the duration filter\<close>

lemma runs_final:
  assumes "run \<noteq> []" "\<forall>r\<in>set run. q r" "pre = [] \<or> \<not> q (last pre)"
  shows "runs q [] (pre @ run) = runs q [] pre @ [(run, None)]"
proof (cases "pre = []")
  case True
  then show ?thesis using assms(1,2) runs_all[of run q "[]" "[]"] by simp
next
  case False
  then obtain pre' y where p: "pre = pre' @ [y]" by (metis rev_exhaust)
  with assms(3) have "\<not> q y" by simp
  then have "runs q [] (pre' @ y # run) = runs q [] (pre' @ [y]) @ runs q [] run"
    by (rule runs_split)
  then show ?thesis using p assms(1,2) runs_all[of run q "[]" "[]"] by simp
qed

lemma runs_no_open:
  assumes "xs = [] \<or> \<not> q (last xs)"
  shows "(run, None) \<notin> set (runs q [] xs)"
proof
  assume "(run, None) \<in> set (runs q [] xs)"
  from runs_sound[OF this] obtain pre where "xs = pre @ run" "run \<noteq> []" "\<forall>r\<in>set run. q r"
    by auto
  then have "xs \<noteq> []" "q (last xs)" by auto
  with assms show False by simp
qed

lemma emit_closed_cong: "emit this farm d (run, Some x) = emit this farm d' (run, Some x)"
  by simp

lemma emit_wa_closed_cong: "emit_wa d (run, Some x) = emit_wa d' (run, Some x)"
  by simp

lemma emit_prefix:
  assumes "pre = [] \<or> \<not> q (last pre)"
  shows "map (emit this farm d) (runs q [] pre) = map (emit this farm pre) (runs q [] pre)"
proof (rule map_cong[OF refl])
  fix e assume e: "e \<in> set (runs q [] pre)"
  obtain run nxt where en: "e = (run, nxt)" by (cases e)
  have "(run, None) \<notin> set (runs q [] pre)"
    using assms runs_no_open[where q=q and xs=pre and run=run] by blast
  with e en obtain x where "nxt = Some x" by (cases nxt) auto
  then show "emit this farm d e = emit this farm pre e" using en by simp
qed

lemma emit_wa_prefix:
  assumes "pre = [] \<or> \<not> q (last pre)"
  shows "map (emit_wa d) (runs q [] pre) = map (emit_wa pre) (runs q [] pre)"
proof (rule map_cong[OF refl])
  fix e assume e: "e \<in> set (runs q [] pre)"
  obtain run nxt where en: "e = (run, nxt)" by (cases e)
  have "(run, None) \<notin> set (runs q [] pre)"
    using assms runs_no_open[where q=q and xs=pre and run=run] by blast
  with e en obtain x where "nxt = Some x" by (cases nxt) auto
  then show "emit_wa d e = emit_wa pre e" using en by simp
qed

lemma final_run_exists:
  assumes "data \<noteq> []" "q (last data)"
  shows "\<exists>pre run. data = pre @ run \<and> run \<noteq> [] \<and> (\<forall>r\<in>set run. q r)
           \<and> (pre = [] \<or> \<not> q (last pre))"
proof -
  let ?run = "rev (takeWhile q (rev data))"
  let ?pre = "rev (dropWhile q (rev data))"
  have 1: "data = ?pre @ ?run"
    by (metis rev_append rev_rev_ident takeWhile_dropWhile_id)
  have "rev data \<noteq> []" "q (hd (rev data))" using assms by (simp_all add: hd_rev)
  then have 2: "?run \<noteq> []" by (cases "rev data") auto
  have 3: "\<forall>r\<in>set ?run. q r" by (auto dest: set_takeWhileD)
  have 4: "?pre = [] \<or> \<not> q (last ?pre)"
  proof (cases "dropWhile q (rev data) = []")
    case True
    then show ?thesis by simp
  next
    case False
    then show ?thesis by (simp add: last_rev hd_dropWhile)
  qed
  from 1 2 3 4 show ?thesis by blast
qed

lemma foldl_plus_sum_list:
  "foldl (\<lambda>sum r. sum + f r) a xs = a + sum_list (map f xs)" for a :: real
  by (induction xs arbitrary: a) simp_all

lemma findStrongWindPeriods_final:
  assumes "run \<noteq> []" "\<forall>r\<in>set run. is_strong this r" "pre = [] \<or> \<not> is_strong this (last pre)"
  shows "findStrongWindPeriods this (pre @ run) farm
         = findStrongWindPeriods this pre farm @ emit this farm (pre @ run) (run, None)"
proof -
  have eq: "map (emit this farm (pre @ run)) (runs (is_strong this) [] pre)
            = map (emit this farm pre) (runs (is_strong this) [] pre)"
    using assms(3) by (rule emit_prefix)
  show ?thesis
    unfolding findStrongWindPeriods_runs runs_final[OF assms] by (simp add: eq)
qed

lemma findStrongWindPeriods_wa_final:
  assumes "run \<noteq> []" "\<forall>r\<in>set run. is_strong_wa this r" "pre = [] \<or> \<not> is_strong_wa this (last pre)"
  shows "findStrongWindPeriods_wa this (pre @ run)
         = findStrongWindPeriods_wa this pre @ [emit_wa (pre @ run) (run, None)]"
proof -
  have eq: "map (emit_wa (pre @ run)) (runs (is_strong_wa this) [] pre)
            = map (emit_wa pre) (runs (is_strong_wa this) [] pre)"
    using assms(3) by (rule emit_wa_prefix)
  show ?thesis
    unfolding findStrongWindPeriods_wa_runs runs_final[OF assms] by (simp add: eq)
qed

lemma emit_length_antitone:
  "m1 \<le> m2 \<Longrightarrow>
   length (emit (this\<lparr>minimumDurationHours := m2\<rparr>) farm d e)
     \<le> length (emit (this\<lparr>minimumDurationHours := m1\<rparr>) farm d e)"
  by (cases e) (simp add: Let_def)

lemma length_concat_map_mono:
  "(\<And>x. x \<in> set xs \<Longrightarrow> length (f x) \<le> length (g x)) \<Longrightarrow>
   length (concat (map f xs)) \<le> length (concat (map g xs))"
  by (induction xs) (simp_all add: add_mono)

lemma is_strong_minimumDurationHours [simp]:
  "is_strong (this\<lparr>minimumDurationHours := m\<rparr>) = is_strong this"
  by (simp add: is_strong_def fun_eq_iff)

lemma findStrongWindPeriods_antitone:
  assumes "m1 \<le> m2"
  shows "length (findStrongWindPeriods (this\<lparr>minimumDurationHours := m2\<rparr>) data farm)
           \<le> length (findStrongWindPeriods (this\<lparr>minimumDurationHours := m1\<rparr>) data farm)"
  unfolding findStrongWindPeriods_runs
  by (simp only: is_strong_minimumDurationHours)
     (rule length_concat_map_mono, rule emit_length_antitone[OF assms])

lemma sorted_run_bounds:
  assumes "sorted (map timestamp (pre @ run @ post))" "run \<noteq> []"
  shows "timestamp (hd run) \<le> timestamp (last run)"
    and "post \<noteq> [] \<Longrightarrow> timestamp (hd run) \<le> timestamp (hd post)"
proof -
  from assms(1) have s: "sorted (map timestamp run)"
    and c: "\<forall>a\<in>set run. \<forall>b\<in>set post. timestamp a \<le> timestamp b"
    by (auto simp: sorted_append)
  from assms(2) obtain a as where r: "run = a # as" by (cases run) auto
  then have "\<forall>b\<in>set run. timestamp a \<le> timestamp b" using s by auto
  then show "timestamp (hd run) \<le> timestamp (last run)" using r assms(2)
    by (metis last_in_set list.sel(1))
  show "timestamp (hd run) \<le> timestamp (hd post)" if "post \<noteq> []"
    using that c assms(2) by (metis hd_in_set)
qed

lemma findStrongWindPeriods_complete:
  assumes "minimumDurationHours this = 0" "sorted (map timestamp data)"
    "data = pre @ run @ post" "run \<noteq> []" "\<forall>r\<in>set run. is_strong this r"
    "pre = [] \<or> \<not> is_strong this (last pre)" "post = [] \<or> \<not> is_strong this (hd post)"
  shows "\<exists>p\<in>set (findStrongWindPeriods this data farm).
           readings p = run \<and> startTime p = timestamp (hd run)"
proof -
  let ?nxt = "case post of [] \<Rightarrow> None | x # _ \<Rightarrow> Some x"
  let ?e = "case ?nxt of None \<Rightarrow> timestamp (last data) | Some x \<Rightarrow> timestamp x"
  have m: "(run, ?nxt) \<in> set (runs (is_strong this) [] data)"
    using assms(3-7) by (rule runs_complete)
  have "timestamp (hd run) \<le> ?e"
  proof (cases post)
    case Nil
    then show ?thesis using sorted_run_bounds(1)[of pre run post] assms(2,3,4) by simp
  next
    case (Cons x rest)
    then show ?thesis using sorted_run_bounds(2)[of pre run post] assms(2,3,4) by simp
  qed
  then have "0 \<le> diff_hours ?e (timestamp (hd run))"
    by (simp add: diff_hours_def)
  then have "emit this farm data (run, ?nxt) = [close_period (open_period farm run) ?e]"
    using assms(1) by (simp add: Let_def close_period_def open_period_def)
  then have "close_period (open_period farm run) ?e \<in> set (findStrongWindPeriods this data farm)"
    unfolding findStrongWindPeriods_runs using m by force
  then show ?thesis by (force simp: close_period_def open_period_def)
qed

lemma findStrongWindPeriods_wa_complete:
  assumes "data = pre @ run @ post" "run \<noteq> []" "\<forall>r\<in>set run. is_strong_wa this r"
    "pre = [] \<or> \<not> is_strong_wa this (last pre)" "post = [] \<or> \<not> is_strong_wa this (hd post)"
  shows "\<exists>p\<in>set (findStrongWindPeriods_wa this data).
           readings_wa p = run \<and> start p = timestamp (hd run)"
proof -
  let ?nxt = "case post of [] \<Rightarrow> None | x # _ \<Rightarrow> Some x"
  have m: "(run, ?nxt) \<in> set (runs (is_strong_wa this) [] data)"
    using assms by (rule runs_complete)
  then have "emit_wa data (run, ?nxt) \<in> set (findStrongWindPeriods_wa this data)"
    unfolding findStrongWindPeriods_wa_runs by force
  then show ?thesis by (force simp: close_period_wa_def open_period_wa_def)
qed

text \<open>
  C3. With \<open>minimumDurationHours = 0\<close> every maximal run of qualifying readings (a
  non-empty stretch of the input, all at or above the threshold, not extensible on either
  side) is emitted as a period, on input ordered by timestamp as the detector's contract
  requires; \<open>WindAnalysisService\<close>, which has no duration filter, emits every maximal
  run. The number of emitted periods is antitone in \<open>minimumDurationHours\<close>. On the
  worked example, \<open>minimumDurationHours = 7\<close> yields no period.
\<close>

theorem minimum_duration_filter:
  "(minimumDurationHours this = 0 \<and> sorted (map timestamp data)
      \<and> data = pre @ run @ post \<and> run \<noteq> []
      \<and> (\<forall>r\<in>set run. strongWindThreshold this \<le> or_zero (windSpeed100mKmh r))
      \<and> (pre = [] \<or> or_zero (windSpeed100mKmh (last pre)) < strongWindThreshold this)
      \<and> (post = [] \<or> or_zero (windSpeed100mKmh (hd post)) < strongWindThreshold this)
    \<longrightarrow> (\<exists>p\<in>set (findStrongWindPeriods this data farm).
           readings p = run \<and> startTime p = timestamp (hd run)))
   \<and> (obs = before @ stretch @ after \<and> stretch \<noteq> []
      \<and> (\<forall>r\<in>set stretch. strongWindThreshold_wa that \<le> windSpeedKmh r)
      \<and> (before = [] \<or> windSpeedKmh (last before) < strongWindThreshold_wa that)
      \<and> (after = [] \<or> windSpeedKmh (hd after) < strongWindThreshold_wa that)
    \<longrightarrow> (\<exists>p\<in>set (findStrongWindPeriods_wa that obs).
           readings_wa p = stretch \<and> start p = timestamp (hd stretch)))
   \<and> (m \<le> n \<longrightarrow>
        length (findStrongWindPeriods (svc\<lparr>minimumDurationHours := n\<rparr>) input site)
          \<le> length (findStrongWindPeriods (svc\<lparr>minimumDurationHours := m\<rparr>) input site))
   \<and> findStrongWindPeriods
        \<lparr> strongWindThreshold = 60, minimumDurationHours = 7, windFarms = [example_farm] \<rparr>
        example_data example_farm = []"
proof (intro conjI impI)
  assume a: "minimumDurationHours this = 0 \<and> sorted (map timestamp data)
      \<and> data = pre @ run @ post \<and> run \<noteq> []
      \<and> (\<forall>r\<in>set run. strongWindThreshold this \<le> or_zero (windSpeed100mKmh r))
      \<and> (pre = [] \<or> or_zero (windSpeed100mKmh (last pre)) < strongWindThreshold this)
      \<and> (post = [] \<or> or_zero (windSpeed100mKmh (hd post)) < strongWindThreshold this)"
  then have "\<forall>r\<in>set run. is_strong this r" "pre = [] \<or> \<not> is_strong this (last pre)"
    "post = [] \<or> \<not> is_strong this (hd post)"
    by (auto simp: is_strong_def)
  moreover from a have "minimumDurationHours this = 0" "sorted (map timestamp data)"
    "data = pre @ run @ post" "run \<noteq> []"
    by blast+
  ultimately show "\<exists>p\<in>set (findStrongWindPeriods this data farm).
           readings p = run \<and> startTime p = timestamp (hd run)"
    using findStrongWindPeriods_complete[of this data pre run post farm] by blast
next
  assume a: "obs = before @ stretch @ after \<and> stretch \<noteq> []
      \<and> (\<forall>r\<in>set stretch. strongWindThreshold_wa that \<le> windSpeedKmh r)
      \<and> (before = [] \<or> windSpeedKmh (last before) < strongWindThreshold_wa that)
      \<and> (after = [] \<or> windSpeedKmh (hd after) < strongWindThreshold_wa that)"
  then have "\<forall>r\<in>set stretch. is_strong_wa that r" "before = [] \<or> \<not> is_strong_wa that (last before)"
    "after = [] \<or> \<not> is_strong_wa that (hd after)"
    by (auto simp: is_strong_wa_def)
  moreover from a have "obs = before @ stretch @ after" "stretch \<noteq> []"
    by blast+
  ultimately show "\<exists>p\<in>set (findStrongWindPeriods_wa that obs).
           readings_wa p = stretch \<and> start p = timestamp (hd stretch)"
    using findStrongWindPeriods_wa_complete[of obs before stretch after that] by blast
next
  assume "m \<le> n"
  then show "length (findStrongWindPeriods (svc\<lparr>minimumDurationHours := n\<rparr>) input site)
          \<le> length (findStrongWindPeriods (svc\<lparr>minimumDurationHours := m\<rparr>) input site)"
    by (rule findStrongWindPeriods_antitone)
next
  show "findStrongWindPeriods
        \<lparr> strongWindThreshold = 60, minimumDurationHours = 7, windFarms = [example_farm] \<rparr>
        example_data example_farm = []"
    using example_periods_7 by (simp add: example_service_def)
qed

theorem minimum_duration_filter_witness:
  "(minimumDurationHours (example_service 0) = 0 \<and> sorted (map timestamp example_data)
      \<and> example_data = map (\<lambda>h. example_reading h 0 50) [0, 1]
            @ map (\<lambda>h. example_reading h 0 70) [2, 3, 4, 5, 6, 7]
            @ map (\<lambda>h. example_reading h 0 50)
                [8, 9, 10, 11, 12, 13, 14, 15, 16, 17, 18, 19, 20, 21, 22, 23])
   \<and> (\<exists>p\<in>set (findStrongWindPeriods (example_service 0) example_data example_farm).
         readings p = map (\<lambda>h. example_reading h 0 70) [2, 3, 4, 5, 6, 7]
         \<and> startTime p = 2 * 3600000)
   \<and> (\<exists>p\<in>set (findStrongWindPeriods_wa example_service_wa example_data_wa).
         readings_wa p = [example_reading 0 65 80] \<and> start p = 0)
   \<and> ((6::real) \<le> 7 \<and>
        length (findStrongWindPeriods ((example_service 6)\<lparr>minimumDurationHours := 7\<rparr>)
                  example_data example_farm)
          \<le> length (findStrongWindPeriods ((example_service 6)\<lparr>minimumDurationHours := 6\<rparr>)
                  example_data example_farm))"
proof -
  let ?pre = "map (\<lambda>h. example_reading h 0 50) [0, 1]"
  let ?run = "map (\<lambda>h. example_reading h 0 70) [2, 3, 4, 5, 6, 7]"
  let ?post = "map (\<lambda>h. example_reading h 0 50)
                [8, 9, 10, 11, 12, 13, 14, 15, 16, 17, 18, 19, 20, 21, 22, 23]"
  note inst = minimum_duration_filter [where this = "example_service 0" and data = example_data
      and pre = "?pre" and run = "?run" and post = "?post" and farm = example_farm
      and that = example_service_wa and obs = example_data_wa
      and before = "[]" and stretch = "[example_reading 0 65 80]"
      and after = "[example_reading 1 40 50, example_reading 2 61 70]"
      and m = 6 and n = 7 and svc = "example_service 6" and input = example_data
      and site = example_farm]
  have h1: "minimumDurationHours (example_service 0) = 0" by (simp add: example_service_def)
  have h2: "sorted (map timestamp example_data)"
    by (simp add: example_data_def example_reading_def)
  have h3: "example_data = ?pre @ ?run @ ?post" by (simp add: example_data_def)
  have h4: "?run \<noteq> []" by simp
  have h5: "\<forall>r\<in>set ?run. strongWindThreshold (example_service 0) \<le> or_zero (windSpeed100mKmh r)"
    by (simp add: example_service_def example_reading_def or_zero_def)
  have h6: "?pre = [] \<or> or_zero (windSpeed100mKmh (last ?pre)) < strongWindThreshold (example_service 0)"
    by (simp add: example_service_def example_reading_def or_zero_def)
  have h7: "?post = [] \<or> or_zero (windSpeed100mKmh (hd ?post)) < strongWindThreshold (example_service 0)"
    by (simp add: example_service_def example_reading_def or_zero_def)
  have a: "\<exists>p\<in>set (findStrongWindPeriods (example_service 0) example_data example_farm).
         readings p = ?run \<and> startTime p = timestamp (hd ?run)"
    using inst h1 h2 h3 h4 h5 h6 h7 by blast
  have w1: "example_data_wa = [] @ [example_reading 0 65 80]
              @ [example_reading 1 40 50, example_reading 2 61 70]"
    by (simp add: example_data_wa_def)
  have w2: "[example_reading 0 65 80] \<noteq> []" by simp
  have w3: "\<forall>r\<in>set [example_reading 0 65 80]. strongWindThreshold_wa example_service_wa \<le> windSpeedKmh r"
    by (simp add: example_service_wa_def example_reading_def)
  have w4: "[example_reading 1 40 50, example_reading 2 61 70] = []
       \<or> windSpeedKmh (hd [example_reading 1 40 50, example_reading 2 61 70])
            < strongWindThreshold_wa example_service_wa"
    by (simp add: example_service_wa_def example_reading_def)
  have b: "\<exists>p\<in>set (findStrongWindPeriods_wa example_service_wa example_data_wa).
         readings_wa p = [example_reading 0 65 80]
         \<and> start p = timestamp (hd [example_reading 0 65 80])"
    using inst w1 w2 w3 w4 by blast
  have c: "length (findStrongWindPeriods ((example_service 6)\<lparr>minimumDurationHours := 7\<rparr>)
                  example_data example_farm)
          \<le> length (findStrongWindPeriods ((example_service 6)\<lparr>minimumDurationHours := 6\<rparr>)
                  example_data example_farm)"
    using inst by simp
  have t1: "timestamp (hd ?run) = 2 * 3600000" by (simp add: example_reading_def)
  have t2: "timestamp (hd [example_reading 0 65 80]) = 0" by (simp add: example_reading_def)
  show ?thesis using a b c h1 h2 h3 unfolding t1 t2 by simp
qed

lemma emit_final:
  "run \<noteq> [] \<Longrightarrow>
   emit this farm (pre @ run) (run, None)
   = (if minimumDurationHours this \<le> diff_hours (timestamp (last run)) (timestamp (hd run))
      then [\<lparr> startTime = timestamp (hd run),
              startWindSpeed = or_zero (windSpeed100mKmh (hd run)),
              maxWindSpeed = Max (set (map (\<lambda>r. or_zero (windSpeed100mKmh r)) run)),
              readings = run,
              windFarm = name farm,
              endTime = timestamp (last run),
              durationHours = diff_hours (timestamp (last run)) (timestamp (hd run)),
              avgWindSpeed = sum_list (map (\<lambda>r. or_zero (windSpeed100mKmh r)) run)
                               / real (length run) \<rparr>]
      else [])"
  by (simp add: Let_def close_period_def open_period_def foldl_plus_sum_list)

lemma emit_wa_final:
  "run \<noteq> [] \<Longrightarrow>
   emit_wa (pre @ run) (run, None)
   = \<lparr> start = timestamp (hd run),
       startWindSpeed_wa = windSpeedKmh (hd run),
       startWindSpeed100m = or_zero (windSpeed100mKmh (hd run)),
       startWindGusts = or_zero (windGustsKmh (hd run)),
       readings_wa = run,
       end_wa = timestamp (last run),
       endWindSpeed = None,
       duration = duration_of (timestamp (last run) - timestamp (hd run)),
       maxWindSpeed_wa = Max (set (map windSpeedKmh run)),
       maxWindSpeed100m = Max (set (map (\<lambda>r. or_zero (windSpeed100mKmh r)) run)),
       maxWindGusts = Max (set (map (\<lambda>r. or_zero (windGustsKmh r)) run)),
       avgWindSpeed_wa = sum_list (map windSpeedKmh run) / real (length run) \<rparr>"
  by (simp add: close_period_wa_def open_period_wa_def foldl_plus_sum_list Math_max_def)

lemma runs_closed:
  assumes "run \<noteq> []" "\<forall>r\<in>set run. q r" "pre = [] \<or> \<not> q (last pre)" "\<not> q x"
  shows "runs q [] (pre @ run @ x # post) = runs q [] pre @ (run, Some x) # runs q [] post"
proof -
  have "runs q [] ((pre @ run) @ x # post) = runs q [] ((pre @ run) @ [x]) @ runs q [] post"
    using assms(4) by (rule runs_split)
  moreover have "runs q [] (run @ [x]) = [(run, Some x)]"
    using assms(1,2,4) runs_all[of run q "[]" "[x]"] by simp
  moreover have "runs q [] (pre @ run @ [x]) = runs q [] pre @ runs q [] (run @ [x])"
  proof (cases "pre = []")
    case True
    then show ?thesis by simp
  next
    case False
    then obtain pre' y where p: "pre = pre' @ [y]" by (metis rev_exhaust)
    with assms(3) have "\<not> q y" by simp
    then have "runs q [] (pre' @ y # (run @ [x])) = runs q [] (pre' @ [y]) @ runs q [] (run @ [x])"
      by (rule runs_split)
    then show ?thesis using p by simp
  qed
  ultimately show ?thesis by simp
qed

lemma emit_suffix:
  assumes "post \<noteq> []"
  shows "map (emit this farm (before @ post)) es = map (emit this farm post) es"
proof (rule map_cong[OF refl])
  fix e assume "e \<in> set es"
  obtain run nxt where "e = (run, nxt)" by (cases e)
  then show "emit this farm (before @ post) e = emit this farm post e"
    using assms by (cases nxt) simp_all
qed

lemma findStrongWindPeriods_closed:
  assumes "run \<noteq> []" "\<forall>r\<in>set run. is_strong this r" "pre = [] \<or> \<not> is_strong this (last pre)"
    "\<not> is_strong this x"
  shows "findStrongWindPeriods this (pre @ run @ x # post) farm
         = findStrongWindPeriods this pre farm
           @ emit this farm [] (run, Some x)
           @ findStrongWindPeriods this post farm"
proof -
  let ?d = "pre @ run @ x # post"
  have a: "map (emit this farm ?d) (runs (is_strong this) [] pre)
            = map (emit this farm pre) (runs (is_strong this) [] pre)"
    using assms(3) by (rule emit_prefix)
  have b: "map (emit this farm ?d) (runs (is_strong this) [] post)
            = map (emit this farm post) (runs (is_strong this) [] post)"
  proof (cases "post = []")
    case True
    then show ?thesis by simp
  next
    case False
    then show ?thesis using emit_suffix[of post this farm "pre @ run @ [x]"] by simp
  qed
  have c: "emit this farm ?d (run, Some x) = emit this farm [] (run, Some x)" by simp
  show ?thesis
    unfolding findStrongWindPeriods_runs runs_closed[OF assms]
    by (simp only: map_append list.map concat_append concat.simps a b c)
qed

lemma emit_closed:
  "emit this farm d (run, Some x)
   = (if minimumDurationHours this \<le> diff_hours (timestamp x) (timestamp (hd run))
      then [\<lparr> startTime = timestamp (hd run),
              startWindSpeed = or_zero (windSpeed100mKmh (hd run)),
              maxWindSpeed = Max (set (map (\<lambda>r. or_zero (windSpeed100mKmh r)) run)),
              readings = run,
              windFarm = name farm,
              endTime = timestamp x,
              durationHours = diff_hours (timestamp x) (timestamp (hd run)),
              avgWindSpeed = sum_list (map (\<lambda>r. or_zero (windSpeed100mKmh r)) run)
                               / real (length run) \<rparr>]
      else [])"
  by (simp add: Let_def close_period_def open_period_def foldl_plus_sum_list)

text \<open>
  C4. When the final reading of a non-empty input qualifies, the input ends with a
  maximal run \<open>run\<close> of qualifying readings, and the detector returns what it returns on
  the readings before that run, followed by the final period if its duration passes the
  minimum-duration test and by nothing otherwise. The final period ends at the last
  reading's own timestamp, its duration is measured from the run's first reading to that
  timestamp, and its maximum and average are taken over the readings of the run; a run of
  one reading has duration \<open>0\<close>. \<open>WindAnalysisService\<close> closes the final period the same
  way and always emits it. A run ended by a reading \<open>x\<close> below the threshold is closed, in
  contrast, at the timestamp of \<open>x\<close>.
\<close>

theorem final_period_closed_at_last_reading:
  "(data \<noteq> [] \<and> strongWindThreshold this \<le> or_zero (windSpeed100mKmh (last data)) \<longrightarrow>
     (\<exists>pre run. data = pre @ run \<and> run \<noteq> []
        \<and> (\<forall>r\<in>set run. strongWindThreshold this \<le> or_zero (windSpeed100mKmh r))
        \<and> (pre = [] \<or> or_zero (windSpeed100mKmh (last pre)) < strongWindThreshold this)
        \<and> findStrongWindPeriods this data farm
            = findStrongWindPeriods this pre farm
              @ (if minimumDurationHours this
                      \<le> diff_hours (timestamp (last data)) (timestamp (hd run))
                 then [\<lparr> startTime = timestamp (hd run),
                         startWindSpeed = or_zero (windSpeed100mKmh (hd run)),
                         maxWindSpeed = Max (set (map (\<lambda>r. or_zero (windSpeed100mKmh r)) run)),
                         readings = run,
                         windFarm = name farm,
                         endTime = timestamp (last data),
                         durationHours = diff_hours (timestamp (last data)) (timestamp (hd run)),
                         avgWindSpeed = sum_list (map (\<lambda>r. or_zero (windSpeed100mKmh r)) run)
                                          / real (length run) \<rparr>]
                 else [])
        \<and> (length run = 1 \<longrightarrow>
              diff_hours (timestamp (last data)) (timestamp (hd run)) = 0)))
   \<and> (obs \<noteq> [] \<and> strongWindThreshold_wa that \<le> windSpeedKmh (last obs) \<longrightarrow>
     (\<exists>pre run. obs = pre @ run \<and> run \<noteq> []
        \<and> (\<forall>r\<in>set run. strongWindThreshold_wa that \<le> windSpeedKmh r)
        \<and> (pre = [] \<or> windSpeedKmh (last pre) < strongWindThreshold_wa that)
        \<and> findStrongWindPeriods_wa that obs
            = findStrongWindPeriods_wa that pre
              @ [\<lparr> start = timestamp (hd run),
                    startWindSpeed_wa = windSpeedKmh (hd run),
                    startWindSpeed100m = or_zero (windSpeed100mKmh (hd run)),
                    startWindGusts = or_zero (windGustsKmh (hd run)),
                    readings_wa = run,
                    end_wa = timestamp (last obs),
                    endWindSpeed = None,
                    duration = duration_of (timestamp (last obs) - timestamp (hd run)),
                    maxWindSpeed_wa = Max (set (map windSpeedKmh run)),
                    maxWindSpeed100m = Max (set (map (\<lambda>r. or_zero (windSpeed100mKmh r)) run)),
                    maxWindGusts = Max (set (map (\<lambda>r. or_zero (windGustsKmh r)) run)),
                    avgWindSpeed_wa = sum_list (map windSpeedKmh run) / real (length run) \<rparr>]
        \<and> (length run = 1 \<longrightarrow>
              totalMilliseconds (duration_of (timestamp (last obs) - timestamp (hd run))) = 0)))
   \<and> (input = before @ stretch @ x # after \<and> stretch \<noteq> []
      \<and> (\<forall>r\<in>set stretch. strongWindThreshold svc \<le> or_zero (windSpeed100mKmh r))
      \<and> (before = [] \<or> or_zero (windSpeed100mKmh (last before)) < strongWindThreshold svc)
      \<and> or_zero (windSpeed100mKmh x) < strongWindThreshold svc \<longrightarrow>
     findStrongWindPeriods svc input site
       = findStrongWindPeriods svc before site
         @ (if minimumDurationHours svc \<le> diff_hours (timestamp x) (timestamp (hd stretch))
            then [\<lparr> startTime = timestamp (hd stretch),
                    startWindSpeed = or_zero (windSpeed100mKmh (hd stretch)),
                    maxWindSpeed = Max (set (map (\<lambda>r. or_zero (windSpeed100mKmh r)) stretch)),
                    readings = stretch,
                    windFarm = name site,
                    endTime = timestamp x,
                    durationHours = diff_hours (timestamp x) (timestamp (hd stretch)),
                    avgWindSpeed = sum_list (map (\<lambda>r. or_zero (windSpeed100mKmh r)) stretch)
                                     / real (length stretch) \<rparr>]
            else [])
         @ findStrongWindPeriods svc after site)"
proof (intro conjI impI)
  assume a: "data \<noteq> [] \<and> strongWindThreshold this \<le> or_zero (windSpeed100mKmh (last data))"
  then have "data \<noteq> []" "is_strong this (last data)" by (simp_all add: is_strong_def)
  from final_run_exists[where q = "is_strong this" and data = data, OF this] obtain pre run where
    d: "data = pre @ run" and n: "run \<noteq> []" and q: "\<forall>r\<in>set run. is_strong this r"
    and m: "pre = [] \<or> \<not> is_strong this (last pre)"
    by blast
  have l: "last data = last run" using d n by simp
  have one: "length run = 1 \<longrightarrow> diff_hours (timestamp (last data)) (timestamp (hd run)) = 0"
    unfolding l by (cases run) (auto simp: diff_hours_def)
  have main: "findStrongWindPeriods this data farm
        = findStrongWindPeriods this pre farm @ emit this farm (pre @ run) (run, None)"
    unfolding d using n q m by (rule findStrongWindPeriods_final)
  show "\<exists>pre run. data = pre @ run \<and> run \<noteq> []
        \<and> (\<forall>r\<in>set run. strongWindThreshold this \<le> or_zero (windSpeed100mKmh r))
        \<and> (pre = [] \<or> or_zero (windSpeed100mKmh (last pre)) < strongWindThreshold this)
        \<and> findStrongWindPeriods this data farm
            = findStrongWindPeriods this pre farm
              @ (if minimumDurationHours this
                      \<le> diff_hours (timestamp (last data)) (timestamp (hd run))
                 then [\<lparr> startTime = timestamp (hd run),
                         startWindSpeed = or_zero (windSpeed100mKmh (hd run)),
                         maxWindSpeed = Max (set (map (\<lambda>r. or_zero (windSpeed100mKmh r)) run)),
                         readings = run,
                         windFarm = name farm,
                         endTime = timestamp (last data),
                         durationHours = diff_hours (timestamp (last data)) (timestamp (hd run)),
                         avgWindSpeed = sum_list (map (\<lambda>r. or_zero (windSpeed100mKmh r)) run)
                                          / real (length run) \<rparr>]
                 else [])
        \<and> (length run = 1 \<longrightarrow>
              diff_hours (timestamp (last data)) (timestamp (hd run)) = 0)"
    apply (rule exI[where x = pre], rule exI[where x = run])
    using main d n q m one unfolding emit_final[OF n] l is_strong_def by (simp add: not_le)
next
  assume a: "obs \<noteq> [] \<and> strongWindThreshold_wa that \<le> windSpeedKmh (last obs)"
  then have "obs \<noteq> []" "is_strong_wa that (last obs)" by (simp_all add: is_strong_wa_def)
  from final_run_exists[where q = "is_strong_wa that" and data = obs, OF this] obtain pre run where
    d: "obs = pre @ run" and n: "run \<noteq> []" and q: "\<forall>r\<in>set run. is_strong_wa that r"
    and m: "pre = [] \<or> \<not> is_strong_wa that (last pre)"
    by blast
  have l: "last obs = last run" using d n by simp
  have one: "length run = 1 \<longrightarrow>
      totalMilliseconds (duration_of (timestamp (last obs) - timestamp (hd run))) = 0"
    unfolding l by (cases run) (auto simp: duration_of_def)
  have main: "findStrongWindPeriods_wa that obs
        = findStrongWindPeriods_wa that pre @ [emit_wa (pre @ run) (run, None)]"
    unfolding d using n q m by (rule findStrongWindPeriods_wa_final)
  show "\<exists>pre run. obs = pre @ run \<and> run \<noteq> []
        \<and> (\<forall>r\<in>set run. strongWindThreshold_wa that \<le> windSpeedKmh r)
        \<and> (pre = [] \<or> windSpeedKmh (last pre) < strongWindThreshold_wa that)
        \<and> findStrongWindPeriods_wa that obs
            = findStrongWindPeriods_wa that pre
              @ [\<lparr> start = timestamp (hd run),
                    startWindSpeed_wa = windSpeedKmh (hd run),
                    startWindSpeed100m = or_zero (windSpeed100mKmh (hd run)),
                    startWindGusts = or_zero (windGustsKmh (hd run)),
                    readings_wa = run,
                    end_wa = timestamp (last obs),
                    endWindSpeed = None,
                    duration = duration_of (timestamp (last obs) - timestamp (hd run)),
                    maxWindSpeed_wa = Max (set (map windSpeedKmh run)),
                    maxWindSpeed100m = Max (set (map (\<lambda>r. or_zero (windSpeed100mKmh r)) run)),
                    maxWindGusts = Max (set (map (\<lambda>r. or_zero (windGustsKmh r)) run)),
                    avgWindSpeed_wa = sum_list (map windSpeedKmh run) / real (length run) \<rparr>]
        \<and> (length run = 1 \<longrightarrow>
              totalMilliseconds (duration_of (timestamp (last obs) - timestamp (hd run))) = 0)"
    apply (rule exI[where x = pre], rule exI[where x = run])
    using main d n q m one unfolding emit_wa_final[OF n] l is_strong_wa_def by (simp add: not_le)
next
  assume a: "input = before @ stretch @ x # after \<and> stretch \<noteq> []
      \<and> (\<forall>r\<in>set stretch. strongWindThreshold svc \<le> or_zero (windSpeed100mKmh r))
      \<and> (before = [] \<or> or_zero (windSpeed100mKmh (last before)) < strongWindThreshold svc)
      \<and> or_zero (windSpeed100mKmh x) < strongWindThreshold svc"
  then have s: "stretch \<noteq> []" "\<forall>r\<in>set stretch. is_strong svc r"
    "before = [] \<or> \<not> is_strong svc (last before)" "\<not> is_strong svc x"
    by (auto simp: is_strong_def)
  from a have i: "input = before @ stretch @ x # after" by blast
  show "findStrongWindPeriods svc input site
       = findStrongWindPeriods svc before site
         @ (if minimumDurationHours svc \<le> diff_hours (timestamp x) (timestamp (hd stretch))
            then [\<lparr> startTime = timestamp (hd stretch),
                    startWindSpeed = or_zero (windSpeed100mKmh (hd stretch)),
                    maxWindSpeed = Max (set (map (\<lambda>r. or_zero (windSpeed100mKmh r)) stretch)),
                    readings = stretch,
                    windFarm = name site,
                    endTime = timestamp x,
                    durationHours = diff_hours (timestamp x) (timestamp (hd stretch)),
                    avgWindSpeed = sum_list (map (\<lambda>r. or_zero (windSpeed100mKmh r)) stretch)
                                     / real (length stretch) \<rparr>]
            else [])
         @ findStrongWindPeriods svc after site"
    unfolding i findStrongWindPeriods_closed[OF s] emit_closed ..
qed

theorem final_period_closed_at_last_reading_witness:
  "(example_data_wa \<noteq> [] \<and> strongWindThreshold (example_service 0) \<le> or_zero (windSpeed100mKmh (last example_data_wa)))
   \<and> (\<exists>pre run. example_data_wa = pre @ run \<and> run \<noteq> []
        \<and> (\<forall>r\<in>set run. strongWindThreshold (example_service 0) \<le> or_zero (windSpeed100mKmh r))
        \<and> (pre = [] \<or> or_zero (windSpeed100mKmh (last pre)) < strongWindThreshold (example_service 0))
        \<and> findStrongWindPeriods (example_service 0) example_data_wa example_farm
            = findStrongWindPeriods (example_service 0) pre example_farm
              @ (if minimumDurationHours (example_service 0)
                      \<le> diff_hours (timestamp (last example_data_wa)) (timestamp (hd run))
                 then [\<lparr> startTime = timestamp (hd run),
                         startWindSpeed = or_zero (windSpeed100mKmh (hd run)),
                         maxWindSpeed = Max (set (map (\<lambda>r. or_zero (windSpeed100mKmh r)) run)),
                         readings = run,
                         windFarm = name example_farm,
                         endTime = timestamp (last example_data_wa),
                         durationHours = diff_hours (timestamp (last example_data_wa)) (timestamp (hd run)),
                         avgWindSpeed = sum_list (map (\<lambda>r. or_zero (windSpeed100mKmh r)) run)
                                          / real (length run) \<rparr>]
                 else [])
        \<and> (length run = 1 \<longrightarrow>
              diff_hours (timestamp (last example_data_wa)) (timestamp (hd run)) = 0))
   \<and> (example_data_wa \<noteq> [] \<and> strongWindThreshold_wa example_service_wa \<le> windSpeedKmh (last example_data_wa))
   \<and> (\<exists>pre run. example_data_wa = pre @ run \<and> run \<noteq> []
        \<and> (\<forall>r\<in>set run. strongWindThreshold_wa example_service_wa \<le> windSpeedKmh r)
        \<and> (pre = [] \<or> windSpeedKmh (last pre) < strongWindThreshold_wa example_service_wa)
        \<and> findStrongWindPeriods_wa example_service_wa example_data_wa
            = findStrongWindPeriods_wa example_service_wa pre
              @ [\<lparr> start = timestamp (hd run),
                    startWindSpeed_wa = windSpeedKmh (hd run),
                    startWindSpeed100m = or_zero (windSpeed100mKmh (hd run)),
                    startWindGusts = or_zero (windGustsKmh (hd run)),
                    readings_wa = run,
                    end_wa = timestamp (last example_data_wa),
                    endWindSpeed = None,
                    duration = duration_of (timestamp (last example_data_wa) - timestamp (hd run)),
                    maxWindSpeed_wa = Max (set (map windSpeedKmh run)),
                    maxWindSpeed100m = Max (set (map (\<lambda>r. or_zero (windSpeed100mKmh r)) run)),
                    maxWindGusts = Max (set (map (\<lambda>r. or_zero (windGustsKmh r)) run)),
                    avgWindSpeed_wa = sum_list (map windSpeedKmh run) / real (length run) \<rparr>]
        \<and> (length run = 1 \<longrightarrow>
              totalMilliseconds (duration_of (timestamp (last example_data_wa) - timestamp (hd run))) = 0))
   \<and> (example_data
        = map (\<lambda>h. example_reading h 0 50) [0, 1]
          @ map (\<lambda>h. example_reading h 0 70) [2, 3, 4, 5, 6, 7]
          @ example_reading 8 0 50
          # map (\<lambda>h. example_reading h 0 50)
              [9, 10, 11, 12, 13, 14, 15, 16, 17, 18, 19, 20, 21, 22, 23]
      \<and> map (\<lambda>h. example_reading h 0 70) [2, 3, 4, 5, 6, 7] \<noteq> []
      \<and> list_all (\<lambda>r. strongWindThreshold (example_service 6) \<le> or_zero (windSpeed100mKmh r))
          (map (\<lambda>h. example_reading h 0 70) [2, 3, 4, 5, 6, 7])
      \<and> or_zero (windSpeed100mKmh (last (map (\<lambda>h. example_reading h 0 50) [0, 1])))
          < strongWindThreshold (example_service 6)
      \<and> or_zero (windSpeed100mKmh (example_reading 8 0 50))
          < strongWindThreshold (example_service 6))
   \<and> findStrongWindPeriods (example_service 6) example_data example_farm
       = findStrongWindPeriods (example_service 6)
           (map (\<lambda>h. example_reading h 0 50) [0, 1]) example_farm
         @ (if minimumDurationHours (example_service 6)
                 \<le> diff_hours (timestamp (example_reading 8 0 50))
                      (timestamp (hd (map (\<lambda>h. example_reading h 0 70) [2, 3, 4, 5, 6, 7])))
            then [\<lparr> startTime = timestamp (hd (map (\<lambda>h. example_reading h 0 70) [2, 3, 4, 5, 6, 7])),
                    startWindSpeed = or_zero (windSpeed100mKmh
                      (hd (map (\<lambda>h. example_reading h 0 70) [2, 3, 4, 5, 6, 7]))),
                    maxWindSpeed = Max (set (map (\<lambda>r. or_zero (windSpeed100mKmh r))
                      (map (\<lambda>h. example_reading h 0 70) [2, 3, 4, 5, 6, 7]))),
                    readings = map (\<lambda>h. example_reading h 0 70) [2, 3, 4, 5, 6, 7],
                    windFarm = name example_farm,
                    endTime = timestamp (example_reading 8 0 50),
                    durationHours = diff_hours (timestamp (example_reading 8 0 50))
                      (timestamp (hd (map (\<lambda>h. example_reading h 0 70) [2, 3, 4, 5, 6, 7]))),
                    avgWindSpeed = sum_list (map (\<lambda>r. or_zero (windSpeed100mKmh r))
                        (map (\<lambda>h. example_reading h 0 70) [2, 3, 4, 5, 6, 7]))
                      / real (length (map (\<lambda>h. example_reading h 0 70) [2, 3, 4, 5, 6, 7])) \<rparr>]
            else [])
         @ findStrongWindPeriods (example_service 6)
             (map (\<lambda>h. example_reading h 0 50)
                [9, 10, 11, 12, 13, 14, 15, 16, 17, 18, 19, 20, 21, 22, 23]) example_farm"
proof -
  let ?before = "map (\<lambda>h. example_reading h 0 50) [0, 1]"
  let ?stretch = "map (\<lambda>h. example_reading h 0 70) [2, 3, 4, 5, 6, 7]"
  let ?x = "example_reading 8 0 50"
  let ?after = "map (\<lambda>h. example_reading h 0 50)
                  [9, 10, 11, 12, 13, 14, 15, 16, 17, 18, 19, 20, 21, 22, 23]"
  note inst = final_period_closed_at_last_reading [where data = example_data_wa
      and this = "example_service 0" and farm = example_farm
      and obs = example_data_wa and that = example_service_wa
      and input = example_data and before = "?before" and stretch = "?stretch" and x = "?x"
      and after = "?after" and svc = "example_service 6" and site = example_farm]
  have h1: "example_data_wa \<noteq> []
      \<and> strongWindThreshold (example_service 0) \<le> or_zero (windSpeed100mKmh (last example_data_wa))"
    by (simp add: example_data_wa_def example_service_def example_reading_def or_zero_def)
  have h2: "example_data_wa \<noteq> []
      \<and> strongWindThreshold_wa example_service_wa \<le> windSpeedKmh (last example_data_wa)"
    by (simp add: example_data_wa_def example_service_wa_def example_reading_def)
  have g1: "example_data = ?before @ ?stretch @ ?x # ?after" by (simp add: example_data_def)
  have g2: "?stretch \<noteq> []" by simp
  have g3: "list_all (\<lambda>r. strongWindThreshold (example_service 6) \<le> or_zero (windSpeed100mKmh r))
              ?stretch"
    by (simp add: example_service_def example_reading_def or_zero_def)
  have g4: "or_zero (windSpeed100mKmh (last ?before)) < strongWindThreshold (example_service 6)"
    by (simp add: example_service_def example_reading_def or_zero_def)
  have g5: "or_zero (windSpeed100mKmh ?x) < strongWindThreshold (example_service 6)"
    by (simp add: example_service_def example_reading_def or_zero_def)
  have g3': "\<forall>r\<in>set ?stretch.
               strongWindThreshold (example_service 6) \<le> or_zero (windSpeed100mKmh r)"
    using g3 by (simp only: list_all_iff)
  have g: "example_data = ?before @ ?stretch @ ?x # ?after \<and> ?stretch \<noteq> []
      \<and> (\<forall>r\<in>set ?stretch.
            strongWindThreshold (example_service 6) \<le> or_zero (windSpeed100mKmh r))
      \<and> (?before = []
          \<or> or_zero (windSpeed100mKmh (last ?before)) < strongWindThreshold (example_service 6))
      \<and> or_zero (windSpeed100mKmh ?x) < strongWindThreshold (example_service 6)"
    using g1 g2 g3' g4 g5 by (intro conjI disjI2) assumption+
  note c1 = inst[THEN conjunct1, THEN mp, OF h1]
  note c2 = inst[THEN conjunct2, THEN conjunct1, THEN mp, OF h2]
  note c3 = inst[THEN conjunct2, THEN conjunct2, THEN mp, OF g]
  note h1a = h1[THEN conjunct1] and h1b = h1[THEN conjunct2]
    and h2a = h2[THEN conjunct1] and h2b = h2[THEN conjunct2]
  show ?thesis using h1a h1b c1 h2a h2b c2 g1 g2 g3 g4 g5 c3 by (intro conjI) assumption+
qed

subsection \<open>Direction buckets\<close>

lemma length_directions: "length directions = 16"
  by (simp add: directions_def)

lemma distinct_directions: "distinct directions"
  by (simp add: directions_def)

lemma direction_index:
  assumes "0 \<le> d" "d \<le> 360"
  shows "0 \<le> js_rem (Math_round (d / 22.5)) 16" "js_rem (Math_round (d / 22.5)) 16 < 16"
proof -
  have "0 \<le> d / 22.5" using assms by simp
  then have "0 \<le> Math_round (d / 22.5)" by (simp add: Math_round_def)
  then show "0 \<le> js_rem (Math_round (d / 22.5)) 16" "js_rem (Math_round (d / 22.5)) 16 < 16"
    by (auto simp: js_rem_def sgn_if)
qed

lemma getWindDirection_grid:
  "i < 16 \<Longrightarrow> getWindDirection (22.5 * real i) = Some (directions ! i)"
proof -
  assume i: "i < 16"
  have "Math_round (22.5 * real i / 22.5) = int i"
    by (simp add: Math_round_def)
  then show ?thesis using i
    by (simp add: getWindDirection_def js_rem_def sgn_if length_directions)
qed

text \<open>
  C7. The mapping \<open>bucketIndex = round(degrees / 22.5) mod 16\<close> is total on \<open>[0, 360]\<close>:
  every direction there maps to exactly one of the 16 compass names; it is exhaustive,
  each name being the image of its sector's centre; and the boundary values \<open>0\<close> and
  \<open>360\<close> both map to \<open>N\<close>.
\<close>

theorem direction_buckets_total:
  "(0 \<le> d \<and> d \<le> 360 \<longrightarrow>
      (\<exists>!i. i < 16 \<and> getWindDirection d = Some (directions ! i)))
   \<and> (i < 16 \<longrightarrow> getWindDirection (22.5 * real i) = Some (directions ! i))
   \<and> length directions = 16 \<and> distinct directions
   \<and> getWindDirection 0 = Some ''N'' \<and> getWindDirection 360 = Some ''N''"
proof (intro conjI impI)
  assume r: "0 \<le> d \<and> d \<le> 360"
  let ?k = "js_rem (Math_round (d / 22.5)) 16"
  from r have k: "0 \<le> ?k" "?k < 16" using direction_index[of d] by blast+
  then have v: "getWindDirection d = Some (directions ! nat ?k)"
    unfolding getWindDirection_def Let_def length_directions by simp
  show "\<exists>!i. i < 16 \<and> getWindDirection d = Some (directions ! i)"
  proof (rule ex1I[where a = "nat ?k"])
    show "nat ?k < 16 \<and> getWindDirection d = Some (directions ! nat ?k)"
      using k v by simp
  next
    fix j assume "j < 16 \<and> getWindDirection d = Some (directions ! j)"
    then have "j < length directions" "directions ! j = directions ! nat ?k"
      using v by (simp_all add: length_directions)
    moreover have "nat ?k < length directions" using k by (simp add: length_directions)
    ultimately show "j = nat ?k"
      using distinct_directions by (simp add: nth_eq_iff_index_eq)
  qed
next
  assume "i < 16"
  then show "getWindDirection (22.5 * real i) = Some (directions ! i)"
    by (rule getWindDirection_grid)
next
  show "getWindDirection 0 = Some ''N''"
    by (simp add: getWindDirection_def js_rem_def Math_round_def directions_def)
  show "getWindDirection 360 = Some ''N''"
    by (simp add: getWindDirection_def js_rem_def Math_round_def directions_def)
qed (simp_all add: length_directions distinct_directions)

theorem direction_buckets_total_witness:
  "((0::real) \<le> 100 \<and> (100::real) \<le> 360)
   \<and> (\<exists>!i. i < 16 \<and> getWindDirection 100 = Some (directions ! i))
   \<and> (3::nat) < 16 \<and> getWindDirection (22.5 * real (3::nat)) = Some (directions ! 3)"
proof -
  have h: "(0::real) \<le> 100 \<and> (100::real) \<le> 360" by simp
  have g: "(3::nat) < 16" by simp
  from direction_buckets_total [where d = 100 and i = 3] h g show ?thesis by blast
qed

subsection \<open>Counts in the accumulator objects\<close>



























subsection \<open>The reading normaliser\<close>

lemma upt_2: "[0..<2] = [0, 1]"
  by (simp add: upt_conv_Cons)

lemma ragged_formatted:
  "getHistoricalData (Inr (ragged_response, 0))
   = Inr [\<lparr> timestamp = 0, windSpeed = 10, windSpeedKmh = 10, windSpeed100m = 20,
             windSpeed100mKmh = 20, windDirection = 90, windDirection100m = 91,
             windGusts = 30, windGustsKmh = 30, temperature = 15, humidity = 50,
             pressure = 1000 \<rparr>,
           \<lparr> timestamp = 3600000, windSpeed = 0, windSpeedKmh = 0, windSpeed100m = 21,
             windSpeed100mKmh = 21, windDirection = 95, windDirection100m = 96,
             windGusts = 31, windGustsKmh = 31, temperature = 16, humidity = 51,
             pressure = 1001 \<rparr>]"
  by (simp add: getHistoricalData_def format_hourly_def ragged_response_def Let_def upt_2
      format_reading_def value_or_zero_def slot_time_def valid_date_def or_zero_def)

lemma backward_formatted:
  "getHistoricalData (Inr (backward_response, 0))
   = Inr [\<lparr> timestamp = 7200000, windSpeed = 10, windSpeedKmh = 10, windSpeed100m = 20,
             windSpeed100mKmh = 20, windDirection = 90, windDirection100m = 91,
             windGusts = 30, windGustsKmh = 30, temperature = 15, humidity = 50,
             pressure = 1000 \<rparr>,
           \<lparr> timestamp = 3600000, windSpeed = 11, windSpeedKmh = 11, windSpeed100m = 21,
             windSpeed100mKmh = 21, windDirection = 95, windDirection100m = 96,
             windGusts = 31, windGustsKmh = 31, temperature = 16, humidity = 51,
             pressure = 1001 \<rparr>]"
  by (simp add: getHistoricalData_def format_hourly_def backward_response_def Let_def upt_2
      format_reading_def value_or_zero_def slot_time_def valid_date_def or_zero_def)

lemma getHistoricalData_returns: "\<exists>formattedData. getHistoricalData fetched = Inr formattedData"
  by (simp add: getHistoricalData_def split: sum.splits prod.splits)

lemma format_hourly_valid:
  assumes "interval hourly \<noteq> 0" "(timeEnd hourly - time hourly) mod interval hourly = 0"
    "0 \<le> (timeEnd hourly - time hourly) div interval hourly"
    "(timeEnd hourly - time hourly) div interval hourly < 4294967296"
    "8 \<le> length (variables hourly)"
    "\<forall>i < nat ((timeEnd hourly - time hourly) div interval hourly).
        valid_date (slot_time hourly off i)"
  shows "format_hourly hourly off
         = Inr (map (format_reading hourly off)
                  [0..<nat ((timeEnd hourly - time hourly) div interval hourly)])"
  using assms by (auto simp: format_hourly_def Let_def list_ex_iff)

lemma format_hourly_invalid:
  assumes "interval hourly = 0 \<or> (timeEnd hourly - time hourly) mod interval hourly \<noteq> 0
      \<or> (timeEnd hourly - time hourly) div interval hourly < 0
      \<or> 4294967296 \<le> (timeEnd hourly - time hourly) div interval hourly
      \<or> length (variables hourly) < 8
      \<or> (\<exists>i < nat ((timeEnd hourly - time hourly) div interval hourly).
            \<not> valid_date (slot_time hourly off i))"
  shows "\<exists>e. format_hourly hourly off = Inl e"
proof -
  let ?n = "(timeEnd hourly - time hourly) div interval hourly"
  let ?Z = "interval hourly = 0 \<or> (timeEnd hourly - time hourly) mod interval hourly \<noteq> 0"
  let ?S = "?n < 0 \<or> 4294967296 \<le> ?n"
  let ?V = "length (variables hourly) < 8"
  let ?D = "list_ex (\<lambda>i. \<not> valid_date (slot_time hourly off i)) [0..<nat ?n]"
  have d: "(\<exists>i < nat ?n. \<not> valid_date (slot_time hourly off i)) \<Longrightarrow> ?D"
    by (auto simp: list_ex_iff)
  from assms d have any: "?Z \<or> ?S \<or> ?V \<or> ?D" by argo
  show ?thesis
  proof (cases ?Z)
    case True
    then show ?thesis by (simp add: format_hourly_def)
  next
    case nz: False
    show ?thesis
    proof (cases ?S)
      case True
      then show ?thesis using nz by (simp add: format_hourly_def Let_def)
    next
      case ns: False
      show ?thesis
      proof (cases ?V)
        case True
        then show ?thesis using nz ns by (simp add: format_hourly_def Let_def)
      next
        case nv: False
        with any nz ns have ?D by argo
        then show ?thesis using nz ns nv by (simp add: format_hourly_def Let_def)
      qed
    qed
  qed
qed

text \<open>
  C5 (as stated): a response whose arrays disagree in length, or whose timestamps are
  not strictly increasing, would make the normaliser fail. It does not: on
  \<open>ragged_response\<close>, whose first array is shorter than the others, it returns two
  readings, the second with speed \<open>0\<close>; on \<open>backward_response\<close> it returns two readings
  with decreasing timestamps.
\<close>

theorem normaliser_accepts_malformed:
  "length (variables ragged_response ! 0) \<noteq> length (variables ragged_response ! 1)
   \<and> getHistoricalData (Inr (ragged_response, 0))
       = Inr [\<lparr> timestamp = 0, windSpeed = 10, windSpeedKmh = 10, windSpeed100m = 20,
                 windSpeed100mKmh = 20, windDirection = 90, windDirection100m = 91,
                 windGusts = 30, windGustsKmh = 30, temperature = 15, humidity = 50,
                 pressure = 1000 \<rparr>,
               \<lparr> timestamp = 3600000, windSpeed = 0, windSpeedKmh = 0, windSpeed100m = 21,
                 windSpeed100mKmh = 21, windDirection = 95, windDirection100m = 96,
                 windGusts = 31, windGustsKmh = 31, temperature = 16, humidity = 51,
                 pressure = 1001 \<rparr>]
   \<and> map timestamp (projr (getHistoricalData (Inr (backward_response, 0))))
       = [7200000, 3600000]
   \<and> isl (getHistoricalData (Inr (backward_response, 0))) = False"
  using ragged_formatted backward_formatted by (simp add: ragged_response_def)

text \<open>
  C5 (amended). The normaliser never fails with \<open>MalformedSourceData\<close>, nor with any
  other error: for every outcome of the fetch it returns normally. When the time layout
  is valid (a non-zero interval dividing \<open>timeEnd - time\<close> into a number of slots from
  \<open>0\<close> to \<open>2^32 - 1\<close>, dates in range) and the eight variables are present, it returns
  one reading per slot, whatever the lengths of the value arrays, a value missing from a
  shorter array being \<open>0\<close>; when the fetch fails it returns the empty sequence, and so
  it does when the layout is invalid: a zero interval, an interval that does not divide
  \<open>timeEnd - time\<close>, a negative number of slots or one of \<open>2^32\<close> or more, fewer than
  eight variables, or a slot whose date is out of range.
\<close>

theorem normaliser_never_fails:
  "(\<exists>formattedData. getHistoricalData fetched = Inr formattedData)
   \<and> (interval hourly \<noteq> 0 \<and> (timeEnd hourly - time hourly) mod interval hourly = 0
      \<and> 0 \<le> (timeEnd hourly - time hourly) div interval hourly
      \<and> (timeEnd hourly - time hourly) div interval hourly < 4294967296
      \<and> 8 \<le> length (variables hourly)
      \<and> (\<forall>i < nat ((timeEnd hourly - time hourly) div interval hourly).
            valid_date (slot_time hourly off i))
      \<longrightarrow> getHistoricalData (Inr (hourly, off))
          = Inr (map (format_reading hourly off)
                   [0..<nat ((timeEnd hourly - time hourly) div interval hourly)]))
   \<and> (length array \<le> index \<longrightarrow> value_or_zero array index = 0)
   \<and> (interval hourly = 0 \<or> (timeEnd hourly - time hourly) mod interval hourly \<noteq> 0
      \<or> (timeEnd hourly - time hourly) div interval hourly < 0
      \<or> 4294967296 \<le> (timeEnd hourly - time hourly) div interval hourly
      \<or> length (variables hourly) < 8
      \<or> (\<exists>i < nat ((timeEnd hourly - time hourly) div interval hourly).
            \<not> valid_date (slot_time hourly off i))
      \<longrightarrow> getHistoricalData (Inr (hourly, off)) = Inr [])
   \<and> getHistoricalData (Inl e) = Inr []"
proof (intro conjI impI)
  show "\<exists>formattedData. getHistoricalData fetched = Inr formattedData"
    by (rule getHistoricalData_returns)
next
  assume "interval hourly \<noteq> 0 \<and> (timeEnd hourly - time hourly) mod interval hourly = 0
      \<and> 0 \<le> (timeEnd hourly - time hourly) div interval hourly
      \<and> (timeEnd hourly - time hourly) div interval hourly < 4294967296
      \<and> 8 \<le> length (variables hourly)
      \<and> (\<forall>i < nat ((timeEnd hourly - time hourly) div interval hourly).
            valid_date (slot_time hourly off i))"
  then have "format_hourly hourly off
         = Inr (map (format_reading hourly off)
                  [0..<nat ((timeEnd hourly - time hourly) div interval hourly)])"
    by (simp add: format_hourly_valid)
  then show "getHistoricalData (Inr (hourly, off))
          = Inr (map (format_reading hourly off)
                   [0..<nat ((timeEnd hourly - time hourly) div interval hourly)])"
    by (simp add: getHistoricalData_def)
next
  assume "length array \<le> index"
  then show "value_or_zero array index = 0" by (simp add: value_or_zero_def)
next
  assume "interval hourly = 0 \<or> (timeEnd hourly - time hourly) mod interval hourly \<noteq> 0
      \<or> (timeEnd hourly - time hourly) div interval hourly < 0
      \<or> 4294967296 \<le> (timeEnd hourly - time hourly) div interval hourly
      \<or> length (variables hourly) < 8
      \<or> (\<exists>i < nat ((timeEnd hourly - time hourly) div interval hourly).
            \<not> valid_date (slot_time hourly off i))"
  then obtain e' where "format_hourly hourly off = Inl e'"
    using format_hourly_invalid[of hourly off] by blast
  then show "getHistoricalData (Inr (hourly, off)) = Inr []"
    by (simp add: getHistoricalData_def)
next
  show "getHistoricalData (Inl e) = Inr []" by (simp add: getHistoricalData_def)
qed

theorem normaliser_never_fails_witness:
  "(interval ragged_response \<noteq> 0
      \<and> (timeEnd ragged_response - time ragged_response) mod interval ragged_response = 0
      \<and> 0 \<le> (timeEnd ragged_response - time ragged_response) div interval ragged_response
      \<and> (timeEnd ragged_response - time ragged_response) div interval ragged_response
          < 4294967296
      \<and> 8 \<le> length (variables ragged_response)
      \<and> list_all (\<lambda>i. valid_date (slot_time ragged_response 0 i))
          [0..<nat ((timeEnd ragged_response - time ragged_response)
                      div interval ragged_response)])
   \<and> getHistoricalData (Inr (ragged_response, 0))
       = Inr (map (format_reading ragged_response 0)
                [0..<nat ((timeEnd ragged_response - time ragged_response)
                            div interval ragged_response)])
   \<and> length (variables ragged_response ! 0) \<le> 1
   \<and> value_or_zero (variables ragged_response ! 0) 1 = 0
   \<and> interval (ragged_response\<lparr>interval := 0\<rparr>) = 0
   \<and> getHistoricalData (Inr (ragged_response\<lparr>interval := 0\<rparr>, 0)) = Inr []
   \<and> length (variables (ragged_response\<lparr>variables := []\<rparr>)) < 8
   \<and> getHistoricalData (Inr (ragged_response\<lparr>variables := []\<rparr>, 0)) = Inr []"
proof -
  note inst = normaliser_never_fails [where hourly = ragged_response and off = 0
      and array = "variables ragged_response ! 0" and index = 1
      and fetched = "Inl FetchError" and e = RangeError]
  note inst0 = normaliser_never_fails [where hourly = "ragged_response\<lparr>interval := 0\<rparr>"
      and off = 0 and e = RangeError and array = "[]" and index = 0
      and fetched = "Inl FetchError"]
  note inst1 = normaliser_never_fails [where hourly = "ragged_response\<lparr>variables := []\<rparr>"
      and off = 0 and e = RangeError and array = "[]" and index = 0
      and fetched = "Inl FetchError"]
  have n: "nat ((timeEnd ragged_response - time ragged_response) div interval ragged_response) = 2"
    by (simp add: ragged_response_def)
  have h1: "interval ragged_response \<noteq> 0
      \<and> (timeEnd ragged_response - time ragged_response) mod interval ragged_response = 0
      \<and> 0 \<le> (timeEnd ragged_response - time ragged_response) div interval ragged_response
      \<and> (timeEnd ragged_response - time ragged_response) div interval ragged_response
          < 4294967296
      \<and> 8 \<le> length (variables ragged_response)"
    by (simp add: ragged_response_def)
  have h2: "list_all (\<lambda>i. valid_date (slot_time ragged_response 0 i))
          [0..<nat ((timeEnd ragged_response - time ragged_response)
                      div interval ragged_response)]"
    unfolding n upt_2 by (simp add: ragged_response_def slot_time_def valid_date_def)
  have h2': "\<forall>i < nat ((timeEnd ragged_response - time ragged_response)
                      div interval ragged_response).
               valid_date (slot_time ragged_response 0 i)"
    using h2 by (simp add: list_all_iff)
  have h3: "length (variables ragged_response ! 0) \<le> 1" by (simp add: ragged_response_def)
  have h4: "interval (ragged_response\<lparr>interval := 0\<rparr>) = 0" by simp
  have h5: "length (variables (ragged_response\<lparr>variables := []\<rparr>)) < 8" by simp
  have a: "getHistoricalData (Inr (ragged_response, 0))
       = Inr (map (format_reading ragged_response 0)
                [0..<nat ((timeEnd ragged_response - time ragged_response)
                            div interval ragged_response)])"
    using inst[THEN conjunct2, THEN conjunct1] h1 h2' by blast
  have b: "value_or_zero (variables ragged_response ! 0) 1 = 0"
    using inst[THEN conjunct2, THEN conjunct2, THEN conjunct1] h3 by blast
  have c: "getHistoricalData (Inr (ragged_response\<lparr>interval := 0\<rparr>, 0)) = Inr []"
    by (rule inst0[THEN conjunct2, THEN conjunct2, THEN conjunct2, THEN conjunct1, THEN mp])
       (rule disjI1, rule h4)
  have d: "getHistoricalData (Inr (ragged_response\<lparr>variables := []\<rparr>, 0)) = Inr []"
    by (rule inst1[THEN conjunct2, THEN conjunct2, THEN conjunct2, THEN conjunct1, THEN mp])
       (rule disjI2, rule disjI2, rule disjI2, rule disjI2, rule disjI1, rule h5)
  from a b c d h1 h2 h3 h4 h5 show ?thesis by blast
qed

subsection \<open>Averages over given time windows\<close>

lemma fold_average_for_period:
  "fold (average_for_period fetchWeatherApi format_date farm) timePeriods acc
   = acc @ map (\<lambda>period. last (average_for_period fetchWeatherApi format_date farm period []))
             timePeriods"
proof (induction timePeriods arbitrary: acc)
  case Nil
  show ?case by simp
next
  case (Cons p ps)
  have "average_for_period fetchWeatherApi format_date farm p acc
        = acc @ [last (average_for_period fetchWeatherApi format_date farm p [])]"
    by (simp add: average_for_period_def Let_def split: sum.splits)
  then show ?case using Cons.IH by simp
qed

text \<open>
  C9. For every site and every list of windows, the re-analyzer reports one cell per
  window, in order: \<open>null\<close> when the request or the formatting of its response fails and
  when no reading has its timestamp in \<open>[start, end]\<close>, and otherwise the arithmetic mean
  of the 10 m speeds of exactly the readings whose timestamps lie in \<open>[start, end]\<close>, both
  ends included.
\<close>

theorem window_averages:
  "averageSpeeds (analyzeWindFarmForTimePeriods fetchWeatherApi format_date farm timePeriods)
   = map (\<lambda>period.
        case fetchWeatherApi (lat farm) (lon farm)
               (format_date (start_tp period)) (format_date (end_tp period)) of
          Inl e \<Rightarrow> None
        | Inr (hourly, utcOffsetSeconds) \<Rightarrow>
            (case format_hourly hourly utcOffsetSeconds of
               Inl e \<Rightarrow> None
             | Inr allData \<Rightarrow>
                 (let inWindow = filter (\<lambda>r. start_tp period \<le> timestamp r
                                            \<and> timestamp r \<le> end_tp period) allData
                  in if inWindow = [] then None
                     else Some (sum_list (map windSpeedKmh inWindow)
                                  / real (length inWindow)))))
       timePeriods
   \<and> name_fa (analyzeWindFarmForTimePeriods fetchWeatherApi format_date farm timePeriods)
       = name farm"
proof -
  have cell: "last (average_for_period fetchWeatherApi format_date farm period [])
      = (case fetchWeatherApi (lat farm) (lon farm)
               (format_date (start_tp period)) (format_date (end_tp period)) of
          Inl e \<Rightarrow> None
        | Inr (hourly, utcOffsetSeconds) \<Rightarrow>
            (case format_hourly hourly utcOffsetSeconds of
               Inl e \<Rightarrow> None
             | Inr allData \<Rightarrow>
                 (let inWindow = filter (\<lambda>r. start_tp period \<le> timestamp r
                                            \<and> timestamp r \<le> end_tp period) allData
                  in if inWindow = [] then None
                     else Some (sum_list (map windSpeedKmh inWindow)
                                  / real (length inWindow)))))" for period
    by (simp add: average_for_period_def getWindDataForPeriod_def Let_def foldl_plus_sum_list
        split: sum.splits prod.splits)
  show ?thesis
    by (simp add: analyzeWindFarmForTimePeriods_def fold_average_for_period cell)
qed

theorem window_averages_witness:
  "averageSpeeds
     (analyzeWindFarmForTimePeriods
        (\<lambda>lat' lon' startDate endDate.
            if startDate = ''1970-01-02'' then Inl FetchError else Inr (ragged_response, 0))
        (\<lambda>t. if t < 86400000 then ''1970-01-01'' else ''1970-01-02'')
        example_farm
        [\<lparr> start_tp = 0, end_tp = 3600000 \<rparr>,
         \<lparr> start_tp = 4000000, end_tp = 5000000 \<rparr>,
         \<lparr> start_tp = 86400000, end_tp = 90000000 \<rparr>])
   = [Some 5, None, None]"
proof -
  have f: "format_hourly ragged_response 0
           = Inr (map (format_reading ragged_response 0) [0, 1])"
    by (simp add: format_hourly_def ragged_response_def Let_def upt_2 slot_time_def
        valid_date_def)
  have t: "map timestamp (map (format_reading ragged_response 0) [0, 1]) = [0, 3600000]"
    "map windSpeedKmh (map (format_reading ragged_response 0) [0, 1]) = [10, 0]"
    by (simp_all add: format_reading_def slot_time_def value_or_zero_def ragged_response_def
        or_zero_def)
  then have t': "timestamp (format_reading ragged_response 0 0) = 0"
    "timestamp (format_reading ragged_response 0 (Suc 0)) = 3600000"
    "windSpeedKmh (format_reading ragged_response 0 0) = 10"
    "windSpeedKmh (format_reading ragged_response 0 (Suc 0)) = 0"
    by simp_all
  show ?thesis
    unfolding window_averages [THEN conjunct1]
    by (simp add: f t' Let_def)
qed

subsection \<open>The multi-site aggregation\<close>

lemma spread_windFarm:
  "get_property (spread [(''windFarm'', Farm farm)] (period_object p)) ''windFarm''
   = Str (windFarm p)"
  by (simp add: spread_def period_object_def get_property_def)

lemma spread_startTime:
  "startTime_of (spread [(''windFarm'', Farm farm)] (period_object p)) = startTime p"
  by (simp add: spread_def period_object_def get_property_def startTime_of_def)

lemma findStrongWindPeriods_windFarm:
  "p \<in> set (findStrongWindPeriods this data farm) \<Longrightarrow> windFarm p = name farm"
  unfolding findStrongWindPeriods_runs
  by (auto simp: Let_def close_period_def open_period_def split: if_splits)

lemma pushed_by_Cons:
  "pushed_by this g (f # farms)
   = (case g f of Inl e \<Rightarrow> {}
      | Inr data \<Rightarrow> (\<lambda>p. spread [(''windFarm'', Farm f)] (period_object p))
                      ` set (findStrongWindPeriods this data f))
     \<union> pushed_by this g farms"
  by (auto simp: pushed_by_def split: sum.splits)

lemma fold_analyze_farm_set:
  "set (snd (fold (analyze_farm this g) farms (wa, nz))) = set nz \<union> pushed_by this g farms"
proof (induction farms arbitrary: wa nz)
  case Nil
  show ?case by (simp add: pushed_by_def)
next
  case (Cons f farms)
  show ?case
  proof (cases "g f")
    case (Inl e)
    then show ?thesis using Cons.IH[of wa nz] by (simp add: pushed_by_Cons)
  next
    case (Inr data)
    show ?thesis
    proof (cases "findStrongWindPeriods this data f = []")
      case True
      then show ?thesis using Inr Cons.IH[of wa nz] by (simp add: pushed_by_Cons)
    next
      case False
      then show ?thesis using Inr
        by (simp add: pushed_by_Cons Let_def Cons.IH Un_assoc)
    qed
  qed
qed

lemma set_update_subset: "set (AList.update k v al) \<subseteq> insert (k, v) (set al)"
  by (induction al) auto

lemma group_step_inv:
  assumes "\<forall>e\<in>set G. snd e \<noteq> [] \<and> (\<forall>p\<in>set (snd e). P p)" "P x"
  shows "\<forall>e\<in>set (case map_of G d of
                     None \<Rightarrow> AList.update d [x] G
                   | Some ps \<Rightarrow> AList.update d (ps @ [x]) G).
            snd e \<noteq> [] \<and> (\<forall>p\<in>set (snd e). P p)"
proof
  fix e
  assume e: "e \<in> set (case map_of G d of
                     None \<Rightarrow> AList.update d [x] G
                   | Some ps \<Rightarrow> AList.update d (ps @ [x]) G)"
  show "snd e \<noteq> [] \<and> (\<forall>p\<in>set (snd e). P p)"
  proof (cases "map_of G d")
    case None
    with e have "e = (d, [x]) \<or> e \<in> set G"
      using set_update_subset[of d "[x]" G] by auto
    then show ?thesis using assms by auto
  next
    case (Some ps)
    then have "(d, ps) \<in> set G" by (rule map_of_SomeD)
    then have ps: "\<forall>p\<in>set ps. P p" using assms(1) by force
    from e Some have "e = (d, ps @ [x]) \<or> e \<in> set G"
      using set_update_subset[of d "ps @ [x]" G] by auto
    then show ?thesis using assms ps by auto
  qed
qed

lemma group_step_keys:
  "map fst (case map_of G d of
              None \<Rightarrow> AList.update d [x] G
            | Some ps \<Rightarrow> AList.update d (ps @ [x]) G)
   = (if d \<in> set (map fst G) then map fst G else map fst G @ [d])"
  by (cases "map_of G d") (simp_all add: update_keys)

lemma group_fold:
  assumes "\<forall>e\<in>set G. snd e \<noteq> [] \<and> (\<forall>p\<in>set (snd e). P p)" "\<forall>x\<in>set xs. P x"
    "distinct (map fst G)"
  shows "(\<forall>e\<in>set (fold (\<lambda>period grouped.
             let date = fd (startTime_of period)
             in case map_of grouped date of
                  None \<Rightarrow> AList.update date [period] grouped
                | Some ps \<Rightarrow> AList.update date (ps @ [period]) grouped) xs G).
            snd e \<noteq> [] \<and> (\<forall>p\<in>set (snd e). P p))
     \<and> set (map fst (fold (\<lambda>period grouped.
             let date = fd (startTime_of period)
             in case map_of grouped date of
                  None \<Rightarrow> AList.update date [period] grouped
                | Some ps \<Rightarrow> AList.update date (ps @ [period]) grouped) xs G))
         = set (map fst G) \<union> (\<lambda>p. fd (startTime_of p)) ` set xs
     \<and> distinct (map fst (fold (\<lambda>period grouped.
             let date = fd (startTime_of period)
             in case map_of grouped date of
                  None \<Rightarrow> AList.update date [period] grouped
                | Some ps \<Rightarrow> AList.update date (ps @ [period]) grouped) xs G))"
  using assms
proof (induction xs arbitrary: G)
  case Nil
  then show ?case by simp
next
  case (Cons x xs)
  let ?d = "fd (startTime_of x)"
  let ?G1 = "case map_of G ?d of
               None \<Rightarrow> AList.update ?d [x] G
             | Some ps \<Rightarrow> AList.update ?d (ps @ [x]) G"
  have 1: "\<forall>e\<in>set ?G1. snd e \<noteq> [] \<and> (\<forall>p\<in>set (snd e). P p)"
    using Cons.prems(1,2) by (intro group_step_inv) simp_all
  have k: "map fst ?G1 = (if ?d \<in> set (map fst G) then map fst G else map fst G @ [?d])"
    by (rule group_step_keys)
  have 2: "distinct (map fst ?G1)" unfolding k using Cons.prems(3) by simp
  have 3: "\<forall>x\<in>set xs. P x" using Cons.prems(2) by simp
  from Cons.IH[OF 1 3 2] show ?case
    unfolding fold_simps Let_def k by (simp del: map_map) blast
qed

lemma groupPeriodsByDate_groups:
  assumes "\<forall>x\<in>set xs. P x"
  shows "(\<forall>e\<in>set (groupPeriodsByDate fd xs). snd e \<noteq> [] \<and> (\<forall>p\<in>set (snd e). P p))
     \<and> set (map fst (groupPeriodsByDate fd xs)) = (\<lambda>p. fd (startTime_of p)) ` set xs
     \<and> distinct (map fst (groupPeriodsByDate fd xs))"
  unfolding groupPeriodsByDate_def
  using group_fold[where G = "[]" and xs = xs and P = P and fd = fd] assms by simp

lemma names_undefined:
  "\<forall>p\<in>set ps. \<exists>s. get_property p ''windFarm'' = Str s \<Longrightarrow>
   map_throwing (\<lambda>p. member_name (get_property p ''windFarm'')) ps
   = Inr (replicate (length ps) Undefined)"
  by (induction ps) auto

lemma new_Set_fold_replicate:
  "fold (\<lambda>x s. if x \<in> set s then s else s @ [x]) (replicate n x) s
   = (if x \<in> set s \<or> n = 0 then s else s @ [x])"
  by (induction n arbitrary: s) (auto simp del: fold_replicate)

lemma new_Set_replicate: "0 < n \<Longrightarrow> new_Set (replicate n x) = [x]"
  unfolding new_Set_def new_Set_fold_replicate by simp

lemma day_of_entry_strings:
  assumes "ps \<noteq> []" "\<forall>p\<in>set ps. \<exists>s. get_property p ''windFarm'' = Str s"
  shows "day_of_entry (d, ps) acc
         = Inr (acc @ [\<lparr> date = d, windFarms_day = [Undefined], windFarmCount = 1,
                          periods_day = ps \<rparr>])"
  using assms by (simp add: day_of_entry_def names_undefined new_Set_replicate)

lemma for_each_day_of_entry:
  assumes "\<forall>e\<in>set G. snd e \<noteq> [] \<and> (\<forall>p\<in>set (snd e). \<exists>s. get_property p ''windFarm'' = Str s)"
  shows "for_each day_of_entry G acc
         = Inr (acc @ map (\<lambda>e. \<lparr> date = fst e, windFarms_day = [Undefined], windFarmCount = 1,
                                  periods_day = snd e \<rparr>) G)"
  using assms
proof (induction G arbitrary: acc)
  case Nil
  show ?case by simp
next
  case (Cons e G)
  obtain d ps where e: "e = (d, ps)" by (cases e)
  with Cons.prems have "ps \<noteq> []" "\<forall>p\<in>set ps. \<exists>s. get_property p ''windFarm'' = Str s"
    by auto
  then have "day_of_entry e acc
         = Inr (acc @ [\<lparr> date = d, windFarms_day = [Undefined], windFarmCount = 1,
                          periods_day = ps \<rparr>])"
    unfolding e by (rule day_of_entry_strings)
  then show ?case using Cons.IH[of "acc @ [\<lparr> date = d, windFarms_day = [Undefined],
      windFarmCount = 1, periods_day = ps \<rparr>]"] Cons.prems e by simp
qed

lemma pushed_by_strings:
  "obj \<in> pushed_by this g farms \<Longrightarrow>
   \<exists>f\<in>set farms. get_property obj ''windFarm'' = Str (name f)"
  by (auto simp: pushed_by_def spread_windFarm findStrongWindPeriods_windFarm)

lemma analysis_structure:
  fixes this g fd
  defines "N \<equiv> sort_key startTime_of
                 (snd (fold (analyze_farm this g) (windFarms this) ([], [])))"
  shows "\<exists>wa. analyzeStrongWindPeriods this g fd
           = Inr \<lparr> windFarmAnalysis_of = wa,
                   nzStrongWindPeriods_of = N,
                   periodsByDate_of = groupPeriodsByDate fd N,
                   nzStrongWindDays_of =
                     sort_key (\<lambda>d. - int (windFarmCount d))
                       (map (\<lambda>e. \<lparr> date = fst e, windFarms_day = [Undefined],
                                   windFarmCount = 1, periods_day = snd e \<rparr>)
                          (groupPeriodsByDate fd N)) \<rparr>"
    and "set N = pushed_by this g (windFarms this)"
    and "set (map fst (groupPeriodsByDate fd N)) = (\<lambda>p. fd (startTime_of p)) ` set N"
    and "distinct (map fst (groupPeriodsByDate fd N))"
proof -
  obtain wa pushed where f: "fold (analyze_farm this g) (windFarms this) ([], []) = (wa, pushed)"
    by (cases "fold (analyze_farm this g) (windFarms this) ([], [])")
  have N: "N = sort_key startTime_of pushed" by (simp add: N_def f)
  have "set pushed = pushed_by this g (windFarms this)"
    using fold_analyze_farm_set[of this g "windFarms this" "[]" "[]"] by (simp add: f)
  then show sN: "set N = pushed_by this g (windFarms this)" by (simp add: N)
  then have str: "\<forall>x\<in>set N. \<exists>s. get_property x ''windFarm'' = Str s"
    using pushed_by_strings by blast
  note grp = groupPeriodsByDate_groups[where xs = N and fd = fd
      and P = "\<lambda>x. \<exists>s. get_property x ''windFarm'' = Str s", OF str]
  from grp show "set (map fst (groupPeriodsByDate fd N)) = (\<lambda>p. fd (startTime_of p)) ` set N"
    and "distinct (map fst (groupPeriodsByDate fd N))" by blast+
  from grp have "for_each day_of_entry (groupPeriodsByDate fd N) []
         = Inr ([] @ map (\<lambda>e. \<lparr> date = fst e, windFarms_day = [Undefined], windFarmCount = 1,
                                  periods_day = snd e \<rparr>) (groupPeriodsByDate fd N))"
    by (intro for_each_day_of_entry) blast
  then have "findNZStrongWindDays (groupPeriodsByDate fd N)
         = Inr (sort_key (\<lambda>d. - int (windFarmCount d))
                  (map (\<lambda>e. \<lparr> date = fst e, windFarms_day = [Undefined],
                                   windFarmCount = 1, periods_day = snd e \<rparr>)
                          (groupPeriodsByDate fd N)))"
    by (simp add: findNZStrongWindDays_def)
  then show "\<exists>wa. analyzeStrongWindPeriods this g fd
           = Inr \<lparr> windFarmAnalysis_of = wa,
                   nzStrongWindPeriods_of = N,
                   periodsByDate_of = groupPeriodsByDate fd N,
                   nzStrongWindDays_of =
                     sort_key (\<lambda>d. - int (windFarmCount d))
                       (map (\<lambda>e. \<lparr> date = fst e, windFarms_day = [Undefined],
                                   windFarmCount = 1, periods_day = snd e \<rparr>)
                          (groupPeriodsByDate fd N)) \<rparr>"
    by (simp add: analyzeStrongWindPeriods_def f N Let_def)
qed

lemma singleton_of_distinct:
  "distinct xs \<Longrightarrow> set xs = {a} \<Longrightarrow> xs = [a]"
proof (cases xs)
  case Nil
  assume "set xs = {a}"
  then show ?thesis using Nil by simp
next
  case (Cons x ys)
  assume d: "distinct xs" and s: "set xs = {a}"
  from s Cons have x: "x = a" and sub: "set ys \<subseteq> {a}" by auto
  from d Cons x have "a \<notin> set ys" by simp
  with sub have "set ys = {}" by (auto simp: subset_singleton_iff)
  then show ?thesis using Cons x by simp
qed

lemma days_of_one_date:
  assumes "f \<in> set (windFarms this)" "g f = Inr data"
    "p \<in> set (findStrongWindPeriods this data f)" "\<And>t. fd t = D"
  shows "\<exists>result. analyzeStrongWindPeriods this g fd = Inr result
           \<and> map date (nzStrongWindDays_of result) = [D]
           \<and> map windFarms_day (nzStrongWindDays_of result) = [ [Undefined] ]
           \<and> map windFarmCount (nzStrongWindDays_of result) = [1]"
proof -
  define N where "N = sort_key startTime_of
                 (snd (fold (analyze_farm this g) (windFarms this) ([], [])))"
  define G where "G = groupPeriodsByDate fd N"
  define mk where "mk = (\<lambda>e :: string \<times> js_object list.
      \<lparr> date = fst e, windFarms_day = [Undefined], windFarmCount = 1, periods_day = snd e \<rparr>)"
  define days where "days = sort_key (\<lambda>d. - int (windFarmCount d)) (map mk G)"
  note st = analysis_structure(1)[where this = this and g = g and fd = fd, folded N_def,
        folded G_def, folded mk_def, folded days_def]
    analysis_structure(2)[where this = this and g = g, folded N_def]
    analysis_structure(3)[where this = this and g = g and fd = fd, folded N_def, folded G_def]
    analysis_structure(4)[where this = this and g = g and fd = fd, folded N_def, folded G_def]
  from st(1) obtain wa where r: "analyzeStrongWindPeriods this g fd
      = Inr \<lparr> windFarmAnalysis_of = wa, nzStrongWindPeriods_of = N,
              periodsByDate_of = G, nzStrongWindDays_of = days \<rparr>"
    by blast
  let ?obj = "spread [(''windFarm'', Farm f)] (period_object p)"
  have "?obj \<in> pushed_by this g (windFarms this)"
    using assms(1-3) by (auto simp: pushed_by_def)
  then have "?obj \<in> set N" using st(2) by simp
  then have "(\<lambda>p. fd (startTime_of p)) ` set N = {D}" using assms(4) by auto
  then have "set (map fst G) = {D}" using st(3) by simp
  with st(4) have "map fst G = [D]" by (rule singleton_of_distinct)
  then obtain e where e: "G = [e]" "fst e = D" by auto
  then have "days = [mk e]" by (simp add: days_def)
  then show ?thesis unfolding r using e(2) by (simp add: mk_def)
qed

lemma two_farm_periods:
  "findStrongWindPeriods two_farm_service example_data example_farm = [example_period]"
  "findStrongWindPeriods two_farm_service example_data second_farm
     = [example_period \<lparr> windFarm := ''Te Apiti'' \<rparr>]"
  by (simp_all add: example_defs two_farm_service_def second_farm_def findStrongWindPeriods_def
      or_zero_def close_period_def diff_hours_def Let_def)

lemma pushed_byI:
  "f \<in> set farms \<Longrightarrow> g f = Inr data \<Longrightarrow> p \<in> set (findStrongWindPeriods this data f) \<Longrightarrow>
   spread [(''windFarm'', Farm f)] (period_object p) \<in> pushed_by this g farms"
  by (auto simp: pushed_by_def)

text \<open>
  C8. With two sites of which only West Wind has a qualifying period, starting on
  1970-01-01, the aggregation returns one day record for that date, so the date is marked
  by any one site; but the \<open>windFarms\<close> of the record, which should be the names of the
  sites with a period that day, is \<open>[undefined]\<close> and not \<open>["West Wind"]\<close>. The size 1 is
  that of \<open>[undefined]\<close>, not a count of sites: when Te Apiti has a period on that date
  too, \<open>windFarms\<close> is again \<open>[undefined]\<close> and \<open>windFarmCount\<close> is again 1.
\<close>

theorem single_site_day_names_undefined:
  "findStrongWindPeriods two_farm_service example_data example_farm = [example_period]
   \<and> findStrongWindPeriods two_farm_service [] second_farm = []
   \<and> (\<exists>result.
         analyzeStrongWindPeriods two_farm_service
           (\<lambda>f. if f = example_farm then Inr example_data else Inr [])
           (\<lambda>t. ''1970-01-01'') = Inr result
         \<and> map date (nzStrongWindDays_of result) = [''1970-01-01'']
         \<and> map windFarms_day (nzStrongWindDays_of result) = [ [Undefined] ]
         \<and> map windFarmCount (nzStrongWindDays_of result) = [1])
   \<and> findStrongWindPeriods two_farm_service example_data second_farm
       = [example_period \<lparr> windFarm := ''Te Apiti'' \<rparr>]
   \<and> (\<exists>result.
         analyzeStrongWindPeriods two_farm_service (\<lambda>f. Inr example_data)
           (\<lambda>t. ''1970-01-01'') = Inr result
         \<and> map date (nzStrongWindDays_of result) = [''1970-01-01'']
         \<and> map windFarms_day (nzStrongWindDays_of result) = [ [Undefined] ]
         \<and> map windFarmCount (nzStrongWindDays_of result) = [1])"
proof -
  let ?g = "\<lambda>f. if f = example_farm then Inr example_data
                 else (Inr [] :: js_error + reading list)"
  let ?h = "\<lambda>f :: wind_farm. (Inr example_data :: js_error + reading list)"
  let ?fd = "\<lambda>t :: instant. ''1970-01-01''"
  have f1: "example_farm \<in> set (windFarms two_farm_service)"
    by (simp add: two_farm_service_def)
  have g1: "?g example_farm = Inr example_data" by simp
  have q1: "example_period
              \<in> set (findStrongWindPeriods two_farm_service example_data example_farm)"
    by (simp add: two_farm_periods)
  have e: "findStrongWindPeriods two_farm_service [] second_farm = []"
    by (simp add: findStrongWindPeriods_def)
  note one = days_of_one_date[where this = two_farm_service and g = ?g and f = example_farm
      and data = example_data and p = example_period and fd = ?fd and D = "''1970-01-01''",
      OF f1 g1 q1 refl]
  note two = days_of_one_date[where this = two_farm_service and g = ?h and f = example_farm
      and data = example_data and p = example_period and fd = ?fd and D = "''1970-01-01''",
      OF f1 refl q1 refl]
  show ?thesis using two_farm_periods(1) e one two_farm_periods(2) two
    by (intro conjI) assumption+
qed

text \<open>
  C10. The aggregation always returns normally, and every day record it produces has
  \<open>windFarmCount = 1\<close> and \<open>windFarms = [undefined]\<close>, however many sites had periods
  starting that date: the \<open>windFarm\<close> property of each aggregated period is the farm-name
  string, the spread having overwritten the farm object, and the \<open>name\<close> of a string is
  \<open>undefined\<close>. A day record exists for exactly the dates on which an aggregated period
  starts.
\<close>

theorem day_records_name_no_farm:
  "\<exists>result. analyzeStrongWindPeriods this getWindData format_date = Inr result
     \<and> (\<forall>d\<in>set (nzStrongWindDays_of result).
           windFarmCount d = 1 \<and> windFarms_day d = [Undefined])
     \<and> (\<forall>obj\<in>set (nzStrongWindPeriods_of result).
           \<exists>f\<in>set (windFarms this). get_property obj ''windFarm'' = Str (name f))
     \<and> set (nzStrongWindPeriods_of result) = pushed_by this getWindData (windFarms this)
     \<and> set (map date (nzStrongWindDays_of result))
         = (\<lambda>obj. format_date (startTime_of obj)) ` set (nzStrongWindPeriods_of result)"
proof -
  define N where "N = sort_key startTime_of
                 (snd (fold (analyze_farm this getWindData) (windFarms this) ([], [])))"
  define G where "G = groupPeriodsByDate format_date N"
  define mk where "mk = (\<lambda>e :: string \<times> js_object list.
      \<lparr> date = fst e, windFarms_day = [Undefined], windFarmCount = 1, periods_day = snd e \<rparr>)"
  define days where "days = sort_key (\<lambda>d. - int (windFarmCount d)) (map mk G)"
  note st = analysis_structure(1)[where this = this and g = getWindData and fd = format_date,
        folded N_def, folded G_def, folded mk_def, folded days_def]
    analysis_structure(2)[where this = this and g = getWindData, folded N_def]
    analysis_structure(3)[where this = this and g = getWindData and fd = format_date,
        folded N_def, folded G_def]
    analysis_structure(4)[where this = this and g = getWindData and fd = format_date,
        folded N_def, folded G_def]
  from st(1) obtain wa where r: "analyzeStrongWindPeriods this getWindData format_date
      = Inr \<lparr> windFarmAnalysis_of = wa, nzStrongWindPeriods_of = N,
              periodsByDate_of = G, nzStrongWindDays_of = days \<rparr>"
    by blast
  have sd: "set days = mk ` set G" by (simp add: days_def)
  have 1: "\<forall>d\<in>set days. windFarmCount d = 1 \<and> windFarms_day d = [Undefined]"
    using sd by (auto simp: mk_def)
  have 2: "\<forall>obj\<in>set N. \<exists>f\<in>set (windFarms this). get_property obj ''windFarm'' = Str (name f)"
    using st(2) pushed_by_strings by blast
  have "date ` set days = fst ` set G" unfolding sd by (simp add: image_image mk_def)
  then have 3: "set (map date days) = (\<lambda>obj. format_date (startTime_of obj)) ` set N"
    using st(3) by simp
  show ?thesis unfolding r using 1 2 3 st(2) by simp
qed

theorem day_records_name_no_farm_witness:
  "findStrongWindPeriods two_farm_service example_data example_farm = [example_period]
   \<and> findStrongWindPeriods two_farm_service example_data second_farm
       = [example_period \<lparr> windFarm := ''Te Apiti'' \<rparr>]
   \<and> (\<exists>result.
         analyzeStrongWindPeriods two_farm_service (\<lambda>f. Inr example_data)
           (\<lambda>t. ''1970-01-01'') = Inr result
         \<and> (\<forall>d\<in>set (nzStrongWindDays_of result).
               windFarmCount d = 1 \<and> windFarms_day d = [Undefined])
         \<and> (\<exists>d\<in>set (nzStrongWindDays_of result). date d = ''1970-01-01'')
         \<and> (\<exists>obj\<in>set (nzStrongWindPeriods_of result).
               get_property obj ''windFarm'' = Str ''West Wind'')
         \<and> (\<exists>obj\<in>set (nzStrongWindPeriods_of result).
               get_property obj ''windFarm'' = Str ''Te Apiti''))"
proof -
  let ?g = "\<lambda>f :: wind_farm. (Inr example_data :: js_error + reading list)"
  let ?fd = "\<lambda>t :: instant. ''1970-01-01''"
  let ?o1 = "spread [(''windFarm'', Farm example_farm)] (period_object example_period)"
  let ?o2 = "spread [(''windFarm'', Farm second_farm)]
               (period_object (example_period \<lparr> windFarm := ''Te Apiti'' \<rparr>))"
  note inst = day_records_name_no_farm
        [where this = two_farm_service and getWindData = ?g and format_date = ?fd]
  from inst obtain result where all:
    "analyzeStrongWindPeriods two_farm_service ?g ?fd = Inr result
     \<and> (\<forall>d\<in>set (nzStrongWindDays_of result).
           windFarmCount d = 1 \<and> windFarms_day d = [Undefined])
     \<and> (\<forall>obj\<in>set (nzStrongWindPeriods_of result).
           \<exists>f\<in>set (windFarms two_farm_service). get_property obj ''windFarm'' = Str (name f))
     \<and> set (nzStrongWindPeriods_of result)
         = pushed_by two_farm_service ?g (windFarms two_farm_service)
     \<and> set (map date (nzStrongWindDays_of result))
         = (\<lambda>obj. ?fd (startTime_of obj)) ` set (nzStrongWindPeriods_of result)" ..
  note r = all[THEN conjunct1]
  note c = all[THEN conjunct2, THEN conjunct1]
  note s = all[THEN conjunct2, THEN conjunct2, THEN conjunct2, THEN conjunct1]
  note d = all[THEN conjunct2, THEN conjunct2, THEN conjunct2, THEN conjunct2]
  have f1: "example_farm \<in> set (windFarms two_farm_service)"
    and f2: "second_farm \<in> set (windFarms two_farm_service)"
    by (simp_all add: two_farm_service_def)
  have q1: "example_period
              \<in> set (findStrongWindPeriods two_farm_service example_data example_farm)"
    and q2: "example_period \<lparr> windFarm := ''Te Apiti'' \<rparr>
              \<in> set (findStrongWindPeriods two_farm_service example_data second_farm)"
    unfolding two_farm_periods by simp_all
  have "?o1 \<in> pushed_by two_farm_service ?g (windFarms two_farm_service)"
    by (rule pushed_byI[where g = ?g and data = example_data and farms = "windFarms two_farm_service"
          and this = two_farm_service and f = example_farm and p = example_period,
          OF f1 refl q1])
  then have o1: "?o1 \<in> set (nzStrongWindPeriods_of result)" unfolding s .
  have "?o2 \<in> pushed_by two_farm_service ?g (windFarms two_farm_service)"
    by (rule pushed_byI[where g = ?g and data = example_data and farms = "windFarms two_farm_service"
          and this = two_farm_service and f = second_farm
          and p = "example_period \<lparr> windFarm := ''Te Apiti'' \<rparr>",
          OF f2 refl q2])
  then have o2: "?o2 \<in> set (nzStrongWindPeriods_of result)" unfolding s .
  have w1: "get_property ?o1 ''windFarm'' = Str ''West Wind''"
    unfolding spread_windFarm by (simp add: example_period_def)
  have w2: "get_property ?o2 ''windFarm'' = Str ''Te Apiti''"
    unfolding spread_windFarm by simp
  have "''1970-01-01'' \<in> (\<lambda>obj. ''1970-01-01'') ` set (nzStrongWindPeriods_of result)"
    using o1 by (rule rev_image_eqI) (rule refl)
  then have "''1970-01-01'' \<in> set (map date (nzStrongWindDays_of result))"
    unfolding d .
  then have day: "\<exists>d\<in>set (nzStrongWindDays_of result). date d = ''1970-01-01''"
    by (auto simp: image_iff)
  have p1: "\<exists>obj\<in>set (nzStrongWindPeriods_of result).
               get_property obj ''windFarm'' = Str ''West Wind''"
    by (rule bexI[where x = ?o1 and P = "\<lambda>obj. get_property obj ''windFarm'' = Str ''West Wind''",
          OF w1 o1])
  have p2: "\<exists>obj\<in>set (nzStrongWindPeriods_of result).
               get_property obj ''windFarm'' = Str ''Te Apiti''"
    by (rule bexI[where x = ?o2 and P = "\<lambda>obj. get_property obj ''windFarm'' = Str ''Te Apiti''",
          OF w2 o2])
  have concl: "\<exists>result.
         analyzeStrongWindPeriods two_farm_service ?g ?fd = Inr result
         \<and> (\<forall>d\<in>set (nzStrongWindDays_of result).
               windFarmCount d = 1 \<and> windFarms_day d = [Undefined])
         \<and> (\<exists>d\<in>set (nzStrongWindDays_of result). date d = ''1970-01-01'')
         \<and> (\<exists>obj\<in>set (nzStrongWindPeriods_of result).
               get_property obj ''windFarm'' = Str ''West Wind'')
         \<and> (\<exists>obj\<in>set (nzStrongWindPeriods_of result).
               get_property obj ''windFarm'' = Str ''Te Apiti'')"
    using r c day p1 p2 by (intro exI[where x = result] conjI) assumption+
  show ?thesis using two_farm_periods concl by (intro conjI) assumption+
qed

end
